(* ===== verification/Prelude.thy ===== *)
theory Prelude
  imports Main
begin

text \<open>
  Shared vocabulary of the BrainFlip development.
  \<^item> The JavaScript character classes the sources rely on: \<open>\s\<close> of a regular
    expression, the white space that \<open>String.prototype.trim\<close> removes, and the line
    terminators that \<open>.\<close> does not match. A JavaScript string is a sequence of UTF-16
    code units; the model reads an Isabelle \<open>char\<close> as a code unit below 256 (the
    Latin-1 block), where both classes are written out exactly.
  \<^item> \<open>js_trim\<close>, the model of \<open>String.prototype.trim\<close>, and
    \<open>js_parse_int\<close>, the model of \<open>parseInt\<close> without a radix, exact over the
    integers (JavaScript returns a double, which rounds beyond 2^53).
  \<^item> Association lists keyed by an identifier, the shape of every ordered collection of
    records in the program (the cards of a deck), with the in-place update and the
    removal the item store performs, and their lemmas.
  \<^item> The named collections \<open>alist_simps\<close> (facts about keyed lists) and
    \<open>js_simps\<close> (facts about the string built-ins), used by the component theories.
\<close>

named_theorems alist_simps "facts about association lists keyed by an identifier"
named_theorems js_simps "facts about the JavaScript string built-ins"

section \<open>JavaScript characters and strings\<close>

text \<open>
  ECMAScript's \<open>\s\<close> and \<open>trim\<close> both use WhiteSpace and LineTerminator; below
  code unit 256 these are TAB, LF, VT, FF, CR, SPACE and NO-BREAK SPACE (0xA0).
  The line terminators are LF and CR (U+2028 and U+2029 lie above the modelled block).
\<close>

definition js_space :: "char \<Rightarrow> bool" where
  "js_space c \<longleftrightarrow> of_char c \<in> {9, 10, 11, 12, 13, 32, 160 :: nat}"

definition js_line_terminator :: "char \<Rightarrow> bool" where
  "js_line_terminator c \<longleftrightarrow> of_char c \<in> {10, 13 :: nat}"

definition js_trim :: "string \<Rightarrow> string" where
  "js_trim s = rev (dropWhile js_space (rev (dropWhile js_space s)))"

subsection \<open>\<open>parseInt\<close>\<close>

text \<open>
  \<open>parseInt(s)\<close> without a radix (ECMAScript 19.2.5): drop leading white space, read
  an optional sign, switch to radix 16 after a \<open>0x\<close> or \<open>0X\<close> prefix, read the
  longest prefix of digits of the radix, and return \<open>NaN\<close> (here \<open>None\<close>) when
  there is none. The value is exact: the model does not round to a double, which only
  matters beyond 2^53.
\<close>

definition js_digit_value :: "char \<Rightarrow> nat option" where
  "js_digit_value c =
     (let n = of_char c :: nat in
      if 48 \<le> n \<and> n \<le> 57 then Some (n - 48)
      else if 97 \<le> n \<and> n \<le> 122 then Some (n - 87)
      else if 65 \<le> n \<and> n \<le> 90 then Some (n - 55)
      else None)"

definition js_is_digit :: "nat \<Rightarrow> char \<Rightarrow> bool" where
  "js_is_digit r c = (case js_digit_value c of Some d \<Rightarrow> d < r | None \<Rightarrow> False)"

fun digits_value :: "nat \<Rightarrow> nat \<Rightarrow> string \<Rightarrow> nat" where
  "digits_value r acc [] = acc"
| "digits_value r acc (c # cs) =
     digits_value r (acc * r + (case js_digit_value c of Some d \<Rightarrow> d | None \<Rightarrow> 0)) cs"

definition js_parse_int :: "string \<Rightarrow> int option" where
  "js_parse_int s =
     (let s1 = dropWhile js_space s;
          neg = (take 1 s1 = ''-'');
          s2 = (if take 1 s1 = ''-'' \<or> take 1 s1 = ''+'' then drop 1 s1 else s1);
          hex = (take 2 s2 = ''0x'' \<or> take 2 s2 = ''0X'');
          r = (if hex then 16 else 10);
          z = takeWhile (js_is_digit r) (if hex then drop 2 s2 else s2)
      in if z = [] then None
         else Some ((if neg then -1 else 1) * int (digits_value r 0 z)))"

section \<open>Association lists keyed by an identifier\<close>

text \<open>
  \<open>alist_map_at k f xs\<close> applies \<open>f\<close> to the value stored under \<open>k\<close>, in place;
  \<open>alist_del k xs\<close> drops the entries under \<open>k\<close> and keeps the others in order.
\<close>

fun alist_map_at :: "'k \<Rightarrow> ('v \<Rightarrow> 'v) \<Rightarrow> ('k \<times> 'v) list \<Rightarrow> ('k \<times> 'v) list" where
  "alist_map_at k f [] = []"
| "alist_map_at k f ((j, v) # xs) =
     (if j = k then (j, f v) else (j, v)) # alist_map_at k f xs"

definition alist_del :: "'k \<Rightarrow> ('k \<times> 'v) list \<Rightarrow> ('k \<times> 'v) list" where
  "alist_del k xs = filter (\<lambda>p. fst p \<noteq> k) xs"

section \<open>Lemmas on strings and association lists\<close>

lemma js_line_terminator_space [js_simps]: "js_line_terminator c \<Longrightarrow> js_space c"
  by (auto simp: js_line_terminator_def js_space_def)

lemma dropWhile_all_iff: "(\<forall>x\<in>set (dropWhile P xs). P x) \<longleftrightarrow> dropWhile P xs = []"
  by (induction xs) auto

lemma dropWhile_none: "list_all (\<lambda>x. \<not> P x) xs \<Longrightarrow> dropWhile P xs = xs"
  by (cases xs) simp_all

lemma js_trim_Nil_iff [simp, js_simps]: "js_trim s = [] \<longleftrightarrow> list_all js_space s"
proof -
  have "js_trim s = [] \<longleftrightarrow> (\<forall>x\<in>set (dropWhile js_space s). js_space x)"
    by (simp add: js_trim_def)
  also have "\<dots> \<longleftrightarrow> dropWhile js_space s = []"
    by (rule dropWhile_all_iff)
  finally show ?thesis by (simp add: list_all_iff)
qed

lemma map_fst_alist_map_at [simp, alist_simps]: "map fst (alist_map_at k f xs) = map fst xs"
  by (induction xs) auto

lemma length_alist_map_at [simp, alist_simps]: "length (alist_map_at k f xs) = length xs"
  by (induction xs) auto

lemma map_of_alist_map_at_at:
  "map_of (alist_map_at k f xs) x = (if x = k then map_option f (map_of xs k) else map_of xs x)"
  by (induction xs) auto

lemma map_of_alist_map_at [alist_simps]:
  "map_of (alist_map_at k f xs) = (map_of xs)(k := map_option f (map_of xs k))"
  by (simp add: fun_eq_iff map_of_alist_map_at_at)

lemma alist_map_at_other [alist_simps]:
  "k \<notin> set (map fst xs) \<Longrightarrow> alist_map_at k f xs = xs"
  by (induction xs) auto

lemma map_fst_alist_del [simp, alist_simps]:
  "map fst (alist_del k xs) = filter (\<lambda>j. j \<noteq> k) (map fst xs)"
  by (induction xs) (auto simp: alist_del_def)

lemma map_of_alist_del [alist_simps]: "map_of (alist_del k xs) = (map_of xs)(k := None)"
  by (induction xs) (auto simp: alist_del_def fun_eq_iff)

lemma distinct_alist_del [alist_simps]:
  "distinct (map fst xs) \<Longrightarrow> distinct (map fst (alist_del k xs))"
  by simp

lemma set_alist_del [alist_simps]: "set (alist_del k xs) = {p \<in> set xs. fst p \<noteq> k}"
  by (auto simp: alist_del_def)

end
