(* ===== verification/Item_Store.thy ===== *)
theory Item_Store
  imports Prelude
begin

text \<open>
  The item store: the ordered collection of editable records behind the deck page
  (\<open>useItemManager\<close>, imported by \<open>src/frontend/src/pages/DeckPage.jsx\<close> from
  \<open>hooks/useItemManager\<close>, a file that is not among the sources; it is modelled from
  section 4.1 of the specification). A store is its list of \<open>(id, item)\<close> pairs in
  insertion order and the counter that issues fresh identifiers. The operations are
  \<open>add_item\<close>, \<open>update_item\<close> and \<open>remove_item\<close>, with \<open>NotFoundError\<close> as a
  value of the result; \<open>store_step\<close> is the same three operations as one step
  function over \<open>store_op\<close>, the interface the deck page calls through.
  The abstract specification is a finite map from identifiers to items
  (\<open>map_step\<close>); \<open>store_abs\<close> maps a store to it.
\<close>

named_theorems store_simps "equations of the item store operations"

record 'a store =
  items :: "(nat \<times> 'a) list"
  next_id :: nat

datatype store_error = NotFoundError

datatype 'a store_op =
    AddItem 'a
  | UpdateItem nat "'a \<Rightarrow> 'a"
  | DeleteItem nat

definition init_store :: "(nat \<times> 'a) list \<Rightarrow> 'a store" where
  "init_store xs = \<lparr>items = xs, next_id = Suc (fold max (map fst xs) 0)\<rparr>"

definition add_item :: "'a \<Rightarrow> 'a store \<Rightarrow> (nat \<times> 'a) \<times> 'a store" where
  "add_item v s =
     (let i = next_id s in ((i, v), s\<lparr>items := items s @ [(i, v)], next_id := Suc i\<rparr>))"

definition update_item ::
  "nat \<Rightarrow> ('a \<Rightarrow> 'a) \<Rightarrow> 'a store \<Rightarrow> store_error + (nat \<times> 'a) \<times> 'a store" where
  "update_item i f s =
     (case map_of (items s) i of
        None \<Rightarrow> Inl NotFoundError
      | Some v \<Rightarrow> Inr ((i, f v), s\<lparr>items := alist_map_at i f (items s)\<rparr>))"

definition remove_item :: "nat \<Rightarrow> 'a store \<Rightarrow> store_error + 'a store" where
  "remove_item i s =
     (if i \<in> set (map fst (items s)) then Inr (s\<lparr>items := alist_del i (items s)\<rparr>)
      else Inl NotFoundError)"

fun store_step :: "'a store \<Rightarrow> 'a store_op \<Rightarrow> store_error + 'a store" where
  "store_step s (AddItem v) = Inr (snd (add_item v s))"
| "store_step s (UpdateItem i f) =
     (case update_item i f s of Inl e \<Rightarrow> Inl e | Inr (_, s') \<Rightarrow> Inr s')"
| "store_step s (DeleteItem i) = remove_item i s"

definition store_inv :: "'a store \<Rightarrow> bool" where
  "store_inv s \<longleftrightarrow>
     distinct (map fst (items s)) \<and> list_all (\<lambda>i. i < next_id s) (map fst (items s))"

definition store_abs :: "'a store \<Rightarrow> nat \<rightharpoonup> 'a" where
  "store_abs s = map_of (items s)"

text \<open>The abstract contract: a finite map, with \<open>fresh\<close> the identifier an addition gets.\<close>

fun map_step :: "(nat \<rightharpoonup> 'a) \<Rightarrow> nat \<Rightarrow> 'a store_op \<Rightarrow> store_error + (nat \<rightharpoonup> 'a)" where
  "map_step m fresh (AddItem v) = Inr (m(fresh \<mapsto> v))"
| "map_step m fresh (UpdateItem i f) =
     (case m i of None \<Rightarrow> Inl NotFoundError | Some v \<Rightarrow> Inr (m(i \<mapsto> f v)))"
| "map_step m fresh (DeleteItem i) =
     (if i \<in> dom m then Inr (m(i := None)) else Inl NotFoundError)"

text \<open>
  A run applies a sequence of operations the way the page issues them: each call is
  independent, and one that fails with \<open>NotFoundError\<close> leaves the store as it
  was (spec section 4.5). \<open>issued\<close> lists the identifiers the run's additions get.
\<close>

definition skip_failed :: "'a store \<Rightarrow> 'a store_op \<Rightarrow> 'a store" where
  "skip_failed s op = (case store_step s op of Inl _ \<Rightarrow> s | Inr s' \<Rightarrow> s')"

fun store_run :: "'a store \<Rightarrow> 'a store_op list \<Rightarrow> 'a store" where
  "store_run s [] = s"
| "store_run s (op # ops) = store_run (skip_failed s op) ops"

fun issued :: "'a store \<Rightarrow> 'a store_op list \<Rightarrow> nat list" where
  "issued s [] = []"
| "issued s (AddItem v # ops) = next_id s # issued (snd (add_item v s)) ops"
| "issued s (op # ops) = issued (skip_failed s op) ops"

lemmas store_defs [store_simps] = add_item_def update_item_def remove_item_def

section \<open>The invariant: distinct identifiers, all below the counter\<close>

lemma fold_max_ge_start: "a \<le> fold max xs (a :: nat)"
  by (induction xs arbitrary: a) (auto intro: le_trans [OF max.cobounded2])

lemma fold_max_ge: "x \<in> set xs \<Longrightarrow> x \<le> fold max xs (a :: nat)"
proof (induction xs arbitrary: a)
  case (Cons y ys)
  show ?case
  proof (cases "x = y")
    case True
    then show ?thesis by (simp add: le_trans [OF max.cobounded1 fold_max_ge_start])
  next
    case False
    with Cons show ?thesis by simp
  qed
qed simp

lemma init_store_inv:
  "distinct (map fst xs) \<Longrightarrow> store_inv (init_store xs)"
  by (auto simp: store_inv_def init_store_def list_all_iff less_Suc_eq_le fold_max_ge)

lemma store_inv_fresh: "store_inv s \<Longrightarrow> next_id s \<notin> set (map fst (items s))"
  by (force simp: store_inv_def list_all_iff)

lemma store_inv_add: "store_inv s \<Longrightarrow> store_inv (snd (add_item v s))"
  by (auto simp: store_inv_def add_item_def list_all_iff Let_def)

lemma store_inv_update:
  "store_inv s \<Longrightarrow> update_item i f s = Inr (r, s') \<Longrightarrow> store_inv s'"
  by (auto simp: store_inv_def update_item_def split: option.splits)

lemma store_inv_remove: "store_inv s \<Longrightarrow> remove_item i s = Inr s' \<Longrightarrow> store_inv s'"
  by (force simp: store_inv_def remove_item_def list_all_iff set_alist_del split: if_splits)

lemmas store_inv_preserved = store_inv_add store_inv_update store_inv_remove

lemma store_abs_add:
  "store_inv s \<Longrightarrow> store_abs (snd (add_item v s)) = (store_abs s)(next_id s \<mapsto> v)"
proof -
  assume "store_inv s"
  from store_inv_fresh [OF this] have "map_of (items s) (next_id s) = None"
    by (simp add: map_of_eq_None_iff)
  then show ?thesis
    by (auto simp: store_abs_def add_item_def Let_def fun_eq_iff map_add_def
        split: option.splits)
qed

lemma store_step_next_id_mono: "store_step s op = Inr s' \<Longrightarrow> next_id s \<le> next_id s'"
  by (cases op) (auto simp: store_defs Let_def split: option.splits if_splits)

lemma next_id_skip_failed: "next_id s \<le> next_id (skip_failed s op)"
  by (auto simp: skip_failed_def split: sum.splits dest: store_step_next_id_mono)

lemma issued_ge: "x \<in> set (issued s ops) \<Longrightarrow> next_id s \<le> x"
proof (induction s ops rule: issued.induct)
  case (2 s v ops)
  then show ?case by (auto simp: add_item_def Let_def)
qed (auto intro: le_trans [OF next_id_skip_failed])

lemma issued_distinct: "distinct (issued s ops)"
proof (induction s ops rule: issued.induct)
  case (2 s v ops)
  have "next_id (snd (add_item v s)) = Suc (next_id s)" by (simp add: add_item_def Let_def)
  with "2.IH" issued_ge [of "next_id s" "snd (add_item v s)" ops] show ?case by auto
qed simp_all

lemma store_step_inv:
  "store_inv s \<Longrightarrow> store_step s op = Inr s' \<Longrightarrow> store_inv s'"
  by (cases op) (auto intro: store_inv_preserved split: sum.splits)

section \<open>Properties of the item store\<close>

text \<open>
  Refinement. On a store that satisfies the invariant, every
  operation does to the abstract map exactly what the map contract says: an addition
  binds the counter's identifier, an update changes the bound item in place, a removal
  unbinds it, and both fail with \<open>NotFoundError\<close> on an unbound identifier.
\<close>

lemma store_step_refines:
  assumes "store_inv s"
  shows "map_sum id store_abs (store_step s op) = map_step (store_abs s) (next_id s) op"
proof (cases op)
  case (AddItem v)
  with assms show ?thesis by (simp add: store_abs_add)
next
  case (UpdateItem i f)
  then show ?thesis
    by (auto simp: update_item_def store_abs_def map_of_alist_map_at split: option.splits)
next
  case (DeleteItem i)
  then show ?thesis
    by (auto simp: remove_item_def store_abs_def map_of_alist_del dom_map_of_conv_image_fst)
qed

text \<open>
  An addition appends exactly one entry, holding the given
  item, at the end of the list, under an identifier no live entry has.
\<close>

lemma add_item_appends_fresh:
  assumes "store_inv s" and "add_item v s = ((i, v'), s')"
  shows "items s' = items s @ [(i, v)] \<and> v' = v \<and> i \<notin> set (map fst (items s))"
  using assms store_inv_fresh [OF assms(1)] by (auto simp: add_item_def Let_def)

text \<open>
  An update that succeeds keeps every identifier at its
  position, leaves every other entry as it was and stores the patched item.
\<close>

lemma update_item_in_place:
  assumes "update_item i f s = Inr ((i', v'), s')"
  shows "map fst (items s') = map fst (items s)
    \<and> (\<forall>k < length (items s). fst (items s ! k) \<noteq> i \<longrightarrow> items s' ! k = items s ! k)
    \<and> map_of (items s') i = Some v'"
proof (cases "map_of (items s) i")
  case None
  with assms show ?thesis by (simp add: update_item_def)
next
  case (Some v)
  with assms have s': "s' = s\<lparr>items := alist_map_at i f (items s)\<rparr>" and "v' = f v"
    by (auto simp: update_item_def)
  have "\<forall>k < length xs. fst (xs ! k) \<noteq> i \<longrightarrow> alist_map_at i f xs ! k = xs ! k" for xs
    by (induction xs) (auto simp: nth_Cons split: nat.splits)
  with Some s' \<open>v' = f v\<close> show ?thesis by (simp add: map_of_alist_map_at)
qed

text \<open>
  A removal that succeeds leaves no entry under the identifier,
  keeps the other entries and keeps their order.
\<close>

lemma remove_item_removes:
  assumes "remove_item i s = Inr s'"
  shows "i \<notin> set (map fst (items s'))
    \<and> map fst (items s') = filter (\<lambda>j. j \<noteq> i) (map fst (items s))
    \<and> set (items s') = {p \<in> set (items s). fst p \<noteq> i}"
  using assms by (auto simp: remove_item_def set_alist_del split: if_splits)

text \<open>
  Identifiers are never reused. Over any run, the identifiers the
  additions get are pairwise distinct and differ from every identifier live at the
  start of the run.
\<close>

lemma issued_ids_unique:
  assumes "store_inv s"
  shows "distinct (issued s ops) \<and> set (issued s ops) \<inter> set (map fst (items s)) = {}"
proof
  show "distinct (issued s ops)" by (rule issued_distinct)
  show "set (issued s ops) \<inter> set (map fst (items s)) = {}"
    using assms issued_ge [of _ s ops] by (force simp: store_inv_def list_all_iff)
qed

end
