(* ===== verification/Deck_Page.thy ===== *)
theory Deck_Page
  imports Item_Store
begin

text \<open>
  The deck page of the client, \<open>src/frontend/src/pages/DeckPage.jsx\<close>. React state
  is modelled as records and every handler as a function on them:
  \<^item> \<open>editable_card\<close> is the state of one \<open>EditableCard\<close> (lines 14-84): whether it
    is in edit mode and the values of its two text areas. \<open>editable_card_step\<close> is
    its reaction to one UI event; \<open>None\<close> means the control is not on screen in that
    mode. Its effects on the page are the callbacks \<open>OnSave\<close> and \<open>OnDelete\<close>.
  \<^item> \<open>pdf_modal\<close> and \<open>share_modal\<close> are the states of \<open>PDFModal\<close> (lines 89-146)
    and \<open>ShareModal\<close> (lines 149-196).
  \<^item> \<open>deck_page\<close> is the state of \<open>DeckPage\<close> (lines 201-320): the cards, kept by
    the item store of \<open>Item_Store\<close>, the add-card form, the two modals, the PDF
    requests in flight and the favourite flag. \<open>handle_pdf_submit\<close>,
    \<open>handle_share_submit\<close>, \<open>handle_toggle_favorite\<close> and \<open>handle_add\<close> are the
    handlers, and \<open>deck_page_step\<close> dispatches one UI event or server response.
\<close>

text \<open>A card's two sides; \<open>back\<close> is an Isar keyword, hence the prefixes.\<close>

record card =
  card_front :: string
  card_back :: string

section \<open>EditableCard\<close>

record editable_card =
  is_editing :: bool
  edit_values :: card

datatype card_event =
    ClickEdit
  | ChangeFront string
  | ChangeBack string
  | ClickSave
  | ClickCancel
  | ClickDelete

datatype card_callback = OnSave card | OnDelete

definition editable_card_init :: "card \<Rightarrow> editable_card" where
  "editable_card_init c = \<lparr>is_editing = False, edit_values = \<lparr>card_front = card_front c, card_back = card_back c\<rparr>\<rparr>"

text \<open>
  \<open>handleChange\<close> copies the current values and overwrites one field; Save calls
  \<open>onSave(editValues)\<close> and leaves edit mode; Cancel only leaves edit mode. The text
  areas and the Save and Cancel buttons exist in edit mode, the Edit and Delete buttons
  outside it.
\<close>

fun editable_card_step ::
  "editable_card \<Rightarrow> card_event \<Rightarrow> (editable_card \<times> card_callback option) option" where
  "editable_card_step e ClickEdit =
     (if is_editing e then None else Some (e\<lparr>is_editing := True\<rparr>, None))"
| "editable_card_step e (ChangeFront v) =
     (if is_editing e then Some (e\<lparr>edit_values := (edit_values e)\<lparr>card_front := v\<rparr>\<rparr>, None) else None)"
| "editable_card_step e (ChangeBack v) =
     (if is_editing e then Some (e\<lparr>edit_values := (edit_values e)\<lparr>card_back := v\<rparr>\<rparr>, None) else None)"
| "editable_card_step e ClickSave =
     (if is_editing e then Some (e\<lparr>is_editing := False\<rparr>, Some (OnSave (edit_values e))) else None)"
| "editable_card_step e ClickCancel =
     (if is_editing e then Some (e\<lparr>is_editing := False\<rparr>, None) else None)"
| "editable_card_step e ClickDelete =
     (if is_editing e then None else Some (e, Some OnDelete))"

text \<open>A run collects the callbacks in order; \<open>None\<close> if some event is not available.\<close>

fun editable_card_run ::
  "editable_card \<Rightarrow> card_event list \<Rightarrow> (editable_card \<times> card_callback list) option" where
  "editable_card_run e [] = Some (e, [])"
| "editable_card_run e (ev # evs) =
     (case editable_card_step e ev of
        None \<Rightarrow> None
      | Some (e', cb) \<Rightarrow>
          (case editable_card_run e' evs of
             None \<Rightarrow> None
           | Some (e'', cbs) \<Rightarrow> Some (e'', (case cb of None \<Rightarrow> cbs | Some c \<Rightarrow> c # cbs))))"

section \<open>PDFModal\<close>

text \<open>
  The modal's state: the selected file (a \<open>File\<close>, here its name; \<open>None\<close> for
  \<open>null\<close> or an emptied selection) and \<open>numFlashcards\<close>, the result of
  \<open>parseInt\<close> on the number field (\<open>None\<close> for \<open>NaN\<close>), initially 10.
  The submit button fires the form's submit event only when the browser's constraint
  validation passes: the file input is \<open>required\<close> and the number input is
  \<open>required\<close> with \<open>min="1"\<close> and \<open>max="50"\<close>. The number input is controlled
  (\<open>value={numFlashcards}\<close>), so the value the browser validates is the state's;
  \<open>pdf_form_valid\<close> reads it from there.
\<close>

record pdf_modal =
  pdf_file :: "string option"
  num_flashcards :: "int option"

datatype pdf_event = SelectFile "string option" | TypeCount string | ClickGenerate | ClickCancelPdf

datatype pdf_callback = PdfSubmitCb string "int option" | PdfCloseCb

definition pdf_modal_init :: pdf_modal where
  "pdf_modal_init = \<lparr>pdf_file = None, num_flashcards = Some 10\<rparr>"

definition pdf_form_valid :: "pdf_modal \<Rightarrow> bool" where
  "pdf_form_valid m \<longleftrightarrow>
     pdf_file m \<noteq> None \<and> (case num_flashcards m of None \<Rightarrow> False | Some n \<Rightarrow> 1 \<le> n \<and> n \<le> 50)"

text \<open>\<open>handleSubmit\<close>: with a file, call \<open>onSubmit\<close>, reset both fields, close.\<close>

definition pdf_handle_submit :: "pdf_modal \<Rightarrow> pdf_modal \<times> pdf_callback list" where
  "pdf_handle_submit m =
     (case pdf_file m of
        None \<Rightarrow> (m, [])
      | Some f \<Rightarrow> (pdf_modal_init, [PdfSubmitCb f (num_flashcards m), PdfCloseCb]))"

fun pdf_modal_step :: "pdf_modal \<Rightarrow> pdf_event \<Rightarrow> pdf_modal \<times> pdf_callback list" where
  "pdf_modal_step m (SelectFile f) = (m\<lparr>pdf_file := f\<rparr>, [])"
| "pdf_modal_step m (TypeCount v) = (m\<lparr>num_flashcards := js_parse_int v\<rparr>, [])"
| "pdf_modal_step m ClickGenerate = (if pdf_form_valid m then pdf_handle_submit m else (m, []))"
| "pdf_modal_step m ClickCancelPdf = (m, [PdfCloseCb])"

section \<open>ShareModal\<close>

text \<open>
  \<open>handleSubmit\<close> of the share modal sets \<open>isLoading\<close>, awaits \<open>onSubmit\<close>, then
  clears the field and closes. The page's \<open>onSubmit\<close> (\<open>handleShareSubmit\<close>) never
  awaits anything, so the continuation runs in the same turn of the event loop, before
  any other UI event: the model takes the whole handler as one step, and
  \<open>isLoading\<close> is back to \<open>False\<close> when it ends. The browser fires the submit event
  only for a non-empty field (\<open>required\<close>) that \<open>email_field_valid\<close> accepts: the
  browser's \<open>type="email"\<close> check, a parameter of the model.
\<close>

record share_modal =
  recipient_email :: string
  is_loading :: bool

datatype share_event = TypeRecipient string | ClickShare | ClickCancelShare

datatype share_callback = ShareSubmitCb string | ShareCloseCb

definition share_modal_init :: share_modal where
  "share_modal_init = \<lparr>recipient_email = [], is_loading = False\<rparr>"

definition share_handle_submit :: "share_modal \<Rightarrow> share_modal \<times> share_callback list" where
  "share_handle_submit m =
     (if recipient_email m \<noteq> []
      then (m\<lparr>is_loading := False, recipient_email := []\<rparr>,
            [ShareSubmitCb (recipient_email m), ShareCloseCb])
      else (m, []))"

fun share_modal_step ::
  "(string \<Rightarrow> bool) \<Rightarrow> share_modal \<Rightarrow> share_event \<Rightarrow> share_modal \<times> share_callback list" where
  "share_modal_step email_field_valid m (TypeRecipient v) = (m\<lparr>recipient_email := v\<rparr>, [])"
| "share_modal_step email_field_valid m ClickShare =
     (if recipient_email m \<noteq> [] \<and> email_field_valid (recipient_email m)
      then share_handle_submit m else (m, []))"
| "share_modal_step email_field_valid m ClickCancelShare = (m, [ShareCloseCb])"

section \<open>DeckPage\<close>

text \<open>
  The response to \<open>POST /api/cards/generate\<close> as the handler sees it: a network
  failure (\<open>fetch\<close> rejects), or \<open>response.ok\<close> with the parsed body, \<open>None\<close>
  when the body is not JSON (\<open>response.json()\<close> rejects). The body holds
  \<open>flashcards\<close> (\<open>None\<close> when absent) as question/answer pairs, and \<open>error\<close>.
\<close>

datatype flashcards_body = FlashcardsBody "(string \<times> string) list option" "string option"

datatype fetch_outcome = NetworkError | HttpResponse bool "flashcards_body option"

datatype alert =
    AlertGenerated nat
  | AlertServerError "string option"
  | AlertGenerateFailed
  | AlertShared string

record deck_page =
  cards :: "card store"
  show_form :: bool
  form_values :: card
  show_pdf_modal :: bool
  pdf_modal :: pdf_modal
  pdf_requests :: "(string \<times> int option) list"
  show_share_modal :: bool
  share_modal :: share_modal
  is_favorite :: bool

definition empty_card :: card where
  "empty_card = \<lparr>card_front = [], card_back = []\<rparr>"

definition deck_page_init :: deck_page where
  "deck_page_init =
     \<lparr>cards = init_store [(1, \<lparr>card_front = ''What is React?'',
                                 card_back = ''A JavaScript library for building UIs.''\<rparr>)],
      show_form = False, form_values = empty_card,
      show_pdf_modal = False, pdf_modal = pdf_modal_init, pdf_requests = [],
      show_share_modal = False, share_modal = share_modal_init, is_favorite = False\<rparr>"

text \<open>\<open>handleAdd\<close>: add the form's values as a card, clear the form, hide it.\<close>

definition handle_add :: "deck_page \<Rightarrow> deck_page" where
  "handle_add p =
     p\<lparr>cards := snd (add_item \<lparr>card_front = card_front (form_values p),
                                 card_back = card_back (form_values p)\<rparr> (cards p)),
       form_values := empty_card, show_form := False\<rparr>"

text \<open>
  \<open>handlePDFSubmit\<close> in two halves. Up to its first \<open>await\<close> it builds the form
  data and sends the request (\<open>handle_pdf_submit\<close>, which records the request as in
  flight); when the response arrives, \<open>handle_pdf_response\<close> runs the rest: on
  \<open>response.ok\<close> it calls \<open>addCard\<close> once per flashcard in order
  (\<open>add_generated\<close>) and reports the count, otherwise it reports \<open>data.error\<close>;
  a rejected \<open>fetch\<close> or \<open>json()\<close>, or a missing \<open>flashcards\<close> array (the
  \<open>TypeError\<close> of \<open>undefined.forEach\<close>), lands in the \<open>catch\<close>.
\<close>

definition handle_pdf_submit :: "deck_page \<Rightarrow> string \<Rightarrow> int option \<Rightarrow> deck_page" where
  "handle_pdf_submit p f n = p\<lparr>pdf_requests := pdf_requests p @ [(f, n)]\<rparr>"

definition add_generated :: "(string \<times> string) list \<Rightarrow> card store \<Rightarrow> card store" where
  "add_generated qs s =
     fold (\<lambda>(q, a) st. snd (add_item \<lparr>card_front = q, card_back = a\<rparr> st)) qs s"

definition handle_pdf_response :: "deck_page \<Rightarrow> fetch_outcome \<Rightarrow> deck_page \<times> alert list" where
  "handle_pdf_response p r =
     (case r of
        NetworkError \<Rightarrow> (p, [AlertGenerateFailed])
      | HttpResponse ok None \<Rightarrow> (p, [AlertGenerateFailed])
      | HttpResponse ok (Some (FlashcardsBody fcs err)) \<Rightarrow>
          (if ok then
             (case fcs of
                None \<Rightarrow> (p, [AlertGenerateFailed])
              | Some qs \<Rightarrow> (p\<lparr>cards := add_generated qs (cards p)\<rparr>, [AlertGenerated (length qs)]))
           else (p, [AlertServerError err])))"

text \<open>
  \<open>handleShareSubmit\<close> only shows the success message (its request to
  \<open>/api/decks/:deckId/share\<close> is commented out); \<open>handleToggleFavorite\<close> only
  flips the local flag (its request to \<open>/api/decks/:deckId/favorite\<close> is commented out).
\<close>

definition handle_share_submit :: "deck_page \<Rightarrow> string \<Rightarrow> deck_page \<times> alert list" where
  "handle_share_submit p email = (p, [AlertShared email])"

definition handle_toggle_favorite :: "deck_page \<Rightarrow> deck_page" where
  "handle_toggle_favorite p = p\<lparr>is_favorite := \<not> is_favorite p\<rparr>"

text \<open>The page's reaction to the callbacks of its two modals, in the order they are made.\<close>

fun apply_pdf_callbacks :: "deck_page \<Rightarrow> pdf_callback list \<Rightarrow> deck_page" where
  "apply_pdf_callbacks p [] = p"
| "apply_pdf_callbacks p (PdfSubmitCb f n # cbs) = apply_pdf_callbacks (handle_pdf_submit p f n) cbs"
| "apply_pdf_callbacks p (PdfCloseCb # cbs) = apply_pdf_callbacks (p\<lparr>show_pdf_modal := False\<rparr>) cbs"

fun apply_share_callbacks :: "deck_page \<Rightarrow> share_callback list \<Rightarrow> deck_page \<times> alert list" where
  "apply_share_callbacks p [] = (p, [])"
| "apply_share_callbacks p (ShareSubmitCb e # cbs) =
     (let r = apply_share_callbacks (fst (handle_share_submit p e)) cbs
      in (fst r, snd (handle_share_submit p e) @ snd r))"
| "apply_share_callbacks p (ShareCloseCb # cbs) =
     apply_share_callbacks (p\<lparr>show_share_modal := False\<rparr>) cbs"

text \<open>
  The events of the page: the buttons it always shows, the add-card form (shown while
  \<open>showForm\<close>; \<open>AddItemForm\<close> reports changes, submit and cancel), the events of
  each modal while it is open, the arrival of the response to the \<open>i\<close>-th request in
  flight (responses may arrive in any order), and the callbacks of the card with a
  given identifier (\<open>onSave\<close> calls \<open>editCard(card.id, updated)\<close>, which replaces
  both sides; \<open>onDelete\<close> calls \<open>deleteCard(card.id)\<close>).
\<close>

datatype page_event =
    ClickAddCard
  | FormChangeFront string
  | FormChangeBack string
  | FormSubmit
  | FormCancel
  | ClickGeneratePdf
  | PdfModalEvent pdf_event
  | PdfResponse nat fetch_outcome
  | ClickShareDeck
  | ShareModalEvent share_event
  | ClickFavorite
  | CardEvent nat card_callback

definition card_callback_effect :: "deck_page \<Rightarrow> nat \<Rightarrow> card_callback \<Rightarrow> deck_page" where
  "card_callback_effect p i cb =
     (case store_step (cards p)
             (case cb of OnSave c \<Rightarrow> UpdateItem i (\<lambda>_. c) | OnDelete \<Rightarrow> DeleteItem i) of
        Inl _ \<Rightarrow> p
      | Inr s \<Rightarrow> p\<lparr>cards := s\<rparr>)"

fun deck_page_step ::
  "(string \<Rightarrow> bool) \<Rightarrow> deck_page \<Rightarrow> page_event \<Rightarrow> (deck_page \<times> alert list) option" where
  "deck_page_step v p ClickAddCard = Some (p\<lparr>show_form := True\<rparr>, [])"
| "deck_page_step v p (FormChangeFront x) =
     (if show_form p then Some (p\<lparr>form_values := (form_values p)\<lparr>card_front := x\<rparr>\<rparr>, []) else None)"
| "deck_page_step v p (FormChangeBack x) =
     (if show_form p then Some (p\<lparr>form_values := (form_values p)\<lparr>card_back := x\<rparr>\<rparr>, []) else None)"
| "deck_page_step v p FormSubmit = (if show_form p then Some (handle_add p, []) else None)"
| "deck_page_step v p FormCancel = (if show_form p then Some (p\<lparr>show_form := False\<rparr>, []) else None)"
| "deck_page_step v p ClickGeneratePdf = Some (p\<lparr>show_pdf_modal := True\<rparr>, [])"
| "deck_page_step v p (PdfModalEvent e) =
     (if show_pdf_modal p then
        (let (m, cbs) = pdf_modal_step (pdf_modal p) e
         in Some (apply_pdf_callbacks (p\<lparr>pdf_modal := m\<rparr>) cbs, []))
      else None)"
| "deck_page_step v p (PdfResponse i r) =
     (if i < length (pdf_requests p) then
        Some (handle_pdf_response
                (p\<lparr>pdf_requests := take i (pdf_requests p) @ drop (Suc i) (pdf_requests p)\<rparr>) r)
      else None)"
| "deck_page_step v p ClickShareDeck = Some (p\<lparr>show_share_modal := True\<rparr>, [])"
| "deck_page_step v p (ShareModalEvent e) =
     (if show_share_modal p then
        (let (m, cbs) = share_modal_step v (share_modal p) e
         in Some (apply_share_callbacks (p\<lparr>share_modal := m\<rparr>) cbs))
      else None)"
| "deck_page_step v p ClickFavorite = Some (handle_toggle_favorite p, [])"
| "deck_page_step v p (CardEvent i cb) =
     (if i \<in> set (map fst (items (cards p))) then Some (card_callback_effect p i cb, []) else None)"

fun deck_page_run ::
  "(string \<Rightarrow> bool) \<Rightarrow> deck_page \<Rightarrow> page_event list \<Rightarrow> (deck_page \<times> alert list) option" where
  "deck_page_run v p [] = Some (p, [])"
| "deck_page_run v p (e # es) =
     (case deck_page_step v p e of
        None \<Rightarrow> None
      | Some (p', a) \<Rightarrow>
          (case deck_page_run v p' es of None \<Rightarrow> None | Some (p'', b) \<Rightarrow> Some (p'', a @ b)))"

section \<open>The page invariant\<close>

text \<open>
  Every reachable page keeps the item store's invariant, and every PDF request in
  flight carries a count the form accepted.
\<close>

definition pdf_request_ok :: "string \<times> int option \<Rightarrow> bool" where
  "pdf_request_ok r \<longleftrightarrow> (case snd r of None \<Rightarrow> False | Some n \<Rightarrow> 1 \<le> n \<and> n \<le> 50)"

definition deck_page_inv :: "deck_page \<Rightarrow> bool" where
  "deck_page_inv p \<longleftrightarrow> store_inv (cards p) \<and> list_all pdf_request_ok (pdf_requests p)"

lemma card_eta [simp]: "\<lparr>card_front = card_front c, card_back = card_back c\<rparr> = c"
  by (cases c) simp

lemma add_generated_items:
  "items (add_generated qs s) =
     items s @ zip [next_id s..<next_id s + length qs]
                   (map (\<lambda>(q, a). \<lparr>card_front = q, card_back = a\<rparr>) qs)
   \<and> next_id (add_generated qs s) = next_id s + length qs"
proof (induction qs arbitrary: s)
  case (Cons qa qs)
  obtain q a where qa: "qa = (q, a)" by (cases qa)
  let ?s = "snd (add_item \<lparr>card_front = q, card_back = a\<rparr> s)"
  have "add_generated (qa # qs) s = add_generated qs ?s"
    by (simp add: add_generated_def qa)
  moreover have "next_id ?s = Suc (next_id s)" and "items ?s = items s @ [(next_id s, \<lparr>card_front = q, card_back = a\<rparr>)]"
    by (simp_all add: add_item_def Let_def)
  ultimately show ?case using Cons [of ?s] by (simp add: qa upt_conv_Cons del: upt_Suc)
qed (simp add: add_generated_def)

lemma add_generated_inv: "store_inv s \<Longrightarrow> store_inv (add_generated qs s)"
  unfolding add_generated_def
  by (induction qs arbitrary: s) (auto intro: store_inv_add)

lemma pdf_modal_step_requests_ok:
  "pdf_modal_step m e = (m', cbs) \<Longrightarrow> PdfSubmitCb f n \<in> set cbs \<Longrightarrow> pdf_request_ok (f, n)"
  by (cases e)
     (auto simp: pdf_handle_submit_def pdf_form_valid_def pdf_request_ok_def
           split: if_splits option.splits)

lemma apply_pdf_callbacks_cards [simp]: "cards (apply_pdf_callbacks p cbs) = cards p"
  by (induction p cbs rule: apply_pdf_callbacks.induct) (simp_all add: handle_pdf_submit_def)

lemma apply_pdf_callbacks_requests:
  "set (pdf_requests (apply_pdf_callbacks p cbs))
     = set (pdf_requests p) \<union> {(f, n). PdfSubmitCb f n \<in> set cbs}"
  by (induction p cbs rule: apply_pdf_callbacks.induct) (auto simp: handle_pdf_submit_def)

lemma apply_share_callbacks_frame:
  "cards (fst (apply_share_callbacks p cbs)) = cards p
   \<and> pdf_requests (fst (apply_share_callbacks p cbs)) = pdf_requests p
   \<and> is_favorite (fst (apply_share_callbacks p cbs)) = is_favorite p"
  by (induction p cbs rule: apply_share_callbacks.induct)
     (simp_all add: handle_share_submit_def Let_def)

lemma handle_pdf_response_cases:
  "fst (handle_pdf_response p r) = p
   \<or> (\<exists>qs. fst (handle_pdf_response p r) = p\<lparr>cards := add_generated qs (cards p)\<rparr>)"
proof (cases r)
  case (HttpResponse ok body)
  then show ?thesis
  proof (cases body)
    case (Some b)
    with HttpResponse show ?thesis
      by (cases b) (auto simp: handle_pdf_response_def split: option.splits)
  qed (simp add: handle_pdf_response_def)
qed (simp add: handle_pdf_response_def)

lemma handle_pdf_response_frame:
  "pdf_requests (fst (handle_pdf_response p r)) = pdf_requests p
   \<and> (store_inv (cards p) \<longrightarrow> store_inv (cards (fst (handle_pdf_response p r))))"
  using handle_pdf_response_cases [of p r] by (auto intro: add_generated_inv)

lemma card_callback_effect_inv:
  "store_inv (cards p) \<Longrightarrow> store_inv (cards (card_callback_effect p i cb))
   \<and> pdf_requests (card_callback_effect p i cb) = pdf_requests p"
proof (cases "store_step (cards p)
                 (case cb of OnSave c \<Rightarrow> UpdateItem i (\<lambda>_. c) | OnDelete \<Rightarrow> DeleteItem i)")
  case (Inr s)
  assume "store_inv (cards p)"
  with Inr show ?thesis by (simp add: card_callback_effect_def store_step_inv)
qed (simp add: card_callback_effect_def)

lemma list_all_take_drop:
  "list_all P xs \<Longrightarrow> list_all P (take i xs @ drop (Suc i) xs)"
  by (auto simp: list_all_iff dest: in_set_takeD in_set_dropD)

lemma deck_page_step_inv:
  assumes "deck_page_inv p" and "deck_page_step v p e = Some (p', a)"
  shows "deck_page_inv p'"
proof (cases e)
  case (PdfModalEvent pe)
  obtain m cbs where mc: "pdf_modal_step (pdf_modal p) pe = (m, cbs)" by fastforce
  with assms PdfModalEvent show ?thesis
    by (auto simp: deck_page_inv_def list_all_iff apply_pdf_callbacks_requests
        dest: pdf_modal_step_requests_ok split: if_splits)
next
  case (PdfResponse i r)
  let ?q = "p\<lparr>pdf_requests := take i (pdf_requests p) @ drop (Suc i) (pdf_requests p)\<rparr>"
  from assms PdfResponse have p': "p' = fst (handle_pdf_response ?q r)"
    by (auto split: if_splits)
  have "list_all pdf_request_ok (pdf_requests ?q)"
    using assms(1) by (simp add: deck_page_inv_def list_all_take_drop del: list_all_append)
  with assms(1) handle_pdf_response_frame [of ?q r] p' show ?thesis
    by (simp add: deck_page_inv_def del: list_all_append)
next
  case (ShareModalEvent se)
  obtain m cbs where mc: "share_modal_step v (share_modal p) se = (m, cbs)" by fastforce
  with assms ShareModalEvent apply_share_callbacks_frame [of "p\<lparr>share_modal := m\<rparr>" cbs]
  show ?thesis by (auto simp: deck_page_inv_def split: if_splits prod.splits)
next
  case (CardEvent i cb)
  with assms card_callback_effect_inv [of p i cb] show ?thesis
    by (auto simp: deck_page_inv_def split: if_splits)
next
  case FormSubmit
  with assms show ?thesis
    by (auto simp: deck_page_inv_def handle_add_def intro: store_inv_add split: if_splits)
qed (use assms in \<open>auto simp: deck_page_inv_def handle_toggle_favorite_def split: if_splits\<close>)

lemma deck_page_run_inv:
  "deck_page_run v p es = Some (p', a) \<Longrightarrow> deck_page_inv p \<Longrightarrow> deck_page_inv p'"
proof (induction es arbitrary: p a)
  case (Cons e es)
  then show ?case
    by (auto split: option.splits prod.splits intro: deck_page_step_inv)
qed simp

lemma deck_page_init_inv: "deck_page_inv deck_page_init"
  by (simp add: deck_page_inv_def deck_page_init_def init_store_inv)

lemma editable_card_run_append:
  "editable_card_run e (xs @ ys) =
     (case editable_card_run e xs of
        None \<Rightarrow> None
      | Some (e1, cbs1) \<Rightarrow>
          (case editable_card_run e1 ys of None \<Rightarrow> None | Some (e2, cbs2) \<Rightarrow> Some (e2, cbs1 @ cbs2)))"
  by (induction e xs rule: editable_card_run.induct) (auto split: option.splits prod.splits)

section \<open>Properties of the deck page\<close>

text \<open>
  C3: when the generation request succeeds, the page
  appends one card per returned flashcard, in the order of the response, question as
  front and answer as back, under consecutive fresh identifiers, and reports their number.
\<close>

theorem pdf_response_adds_cards_in_order:
  "items (cards (fst (handle_pdf_response p (HttpResponse True (Some (FlashcardsBody (Some qs) err)))))) =
     items (cards p) @
       zip [next_id (cards p)..<next_id (cards p) + length qs]
           (map (\<lambda>(q, a). \<lparr>card_front = q, card_back = a\<rparr>) qs)
   \<and> snd (handle_pdf_response p (HttpResponse True (Some (FlashcardsBody (Some qs) err))))
       = [AlertGenerated (length qs)]"
  by (simp add: handle_pdf_response_def add_generated_items)

text \<open>
  C6: adding a card from the form appends exactly one entry
  holding the form's values at the end of the deck, under an identifier no card of the
  deck has, then clears and hides the form.
\<close>

theorem handle_add_appends_card:
  assumes "store_inv (cards p)"
  shows "items (cards (handle_add p)) = items (cards p) @ [(next_id (cards p), form_values p)]
    \<and> next_id (cards p) \<notin> set (map fst (items (cards p)))
    \<and> form_values (handle_add p) = empty_card \<and> \<not> show_form (handle_add p)"
proof -
  obtain i v s' where eq: "add_item (form_values p) (cards p) = ((i, v), s')"
    by (metis prod.collapse)
  have h: "handle_add p = p\<lparr>cards := s', form_values := empty_card, show_form := False\<rparr>"
    using eq by (simp add: handle_add_def)
  from eq have "i = next_id (cards p)" by (auto simp: add_item_def Let_def)
  with add_item_appends_fresh [OF assms eq] h show ?thesis by simp
qed

text \<open>
  C7: refinement. Seen through the abstract map from identifiers to
  cards, Save of a displayed card binds its identifier to the edited values and Delete
  unbinds it; no other card changes.
\<close>

theorem card_callback_refines:
  assumes "store_inv (cards p)" and "i \<in> dom (store_abs (cards p))"
  shows "store_abs (cards (card_callback_effect p i cb)) =
    (case cb of OnSave c \<Rightarrow> (store_abs (cards p))(i \<mapsto> c) | OnDelete \<Rightarrow> (store_abs (cards p))(i := None))"
proof (cases cb)
  case (OnSave c)
  with store_step_refines [OF assms(1), of "UpdateItem i (\<lambda>_. c)"] assms(2) show ?thesis
    by (auto simp: card_callback_effect_def split: sum.splits option.splits)
next
  case OnDelete
  with store_step_refines [OF assms(1), of "DeleteItem i"] assms(2) show ?thesis
    by (auto simp: card_callback_effect_def split: sum.splits)
qed

text \<open>
  C17: Save keeps every card at its position, and Delete removes
  exactly the deleted card's identifier and keeps the other cards in their order.
\<close>

theorem card_callback_keeps_order:
  assumes "i \<in> set (map fst (items (cards p)))"
  shows "map fst (items (cards (card_callback_effect p i (OnSave c)))) = map fst (items (cards p))
    \<and> map fst (items (cards (card_callback_effect p i OnDelete)))
        = filter (\<lambda>j. j \<noteq> i) (map fst (items (cards p)))"
proof -
  obtain v where v: "map_of (items (cards p)) i = Some v"
    using assms weak_map_of_SomeI by fastforce
  obtain s1 where u: "update_item i (\<lambda>_. c) (cards p) = Inr ((i, c), s1)"
    using v by (simp add: update_item_def)
  obtain s2 where d: "remove_item i (cards p) = Inr s2"
    using assms by (simp add: remove_item_def)
  from update_item_in_place [OF u] remove_item_removes [OF d] u d show ?thesis
    by (simp add: card_callback_effect_def)
qed

text \<open>
  C11: every other outcome of the generation request (a
  network failure, a body that is not JSON, an error status, a success without a
  \<open>flashcards\<close> array) leaves the page as it was and reports no generated cards.
\<close>

theorem pdf_response_failure_keeps_page:
  assumes "\<forall>qs err. r \<noteq> HttpResponse True (Some (FlashcardsBody (Some qs) err))"
  shows "fst (handle_pdf_response p r) = p
    \<and> (\<forall>n. AlertGenerated n \<notin> set (snd (handle_pdf_response p r)))"
proof (cases r)
  case (HttpResponse ok body)
  show ?thesis
  proof (cases body)
    case (Some b)
    then obtain fcs err where b: "b = FlashcardsBody fcs err" by (cases b)
    with assms HttpResponse Some show ?thesis
      by (cases ok) (auto simp: handle_pdf_response_def split: option.splits)
  qed (simp add: HttpResponse handle_pdf_response_def)
qed (simp add: handle_pdf_response_def)

text \<open>
  C8: invariant. In every state the page reaches from its
  initial state, the card identifiers are distinct and below the store's counter.
\<close>

theorem deck_page_run_store_inv:
  "deck_page_run v deck_page_init es = Some (p, a) \<Longrightarrow> store_inv (cards p)"
  using deck_page_run_inv [OF _ deck_page_init_inv] by (simp add: deck_page_inv_def)

text \<open>
  C9: safety. Every PDF generation request the page has sent
  and not yet seen answered carries a flashcard count between 1 and 50: the form only
  submits what the browser's \<open>min\<close>/\<open>max\<close> validation accepts.
\<close>

theorem deck_page_run_pdf_counts:
  assumes "deck_page_run v deck_page_init es = Some (p, a)" and "(f, n) \<in> set (pdf_requests p)"
  shows "\<exists>k. n = Some k \<and> 1 \<le> k \<and> k \<le> 50"
proof -
  from deck_page_run_inv [OF assms(1) deck_page_init_inv]
  have "list_all pdf_request_ok (pdf_requests p)" by (simp add: deck_page_inv_def)
  with assms(2) show ?thesis by (auto simp: list_all_iff pdf_request_ok_def split: option.splits)
qed

text \<open>
  C14: Cancel does not discard an edit. Whatever happened in the
  editor before, when Cancel is followed by Edit and Save, the card sent to
  \<open>onSave\<close> (and so to \<open>editCard\<close>) is exactly what the text areas held when
  Cancel was clicked: \<open>editValues\<close> is never reset to the card's values.
\<close>

theorem cancelled_edit_resurfaces:
  assumes "editable_card_run e (evs @ [ClickCancel, ClickEdit, ClickSave]) = Some (e', cbs)"
  shows "\<exists>e0 cbs0. editable_card_run e evs = Some (e0, cbs0) \<and> is_editing e0
    \<and> cbs = cbs0 @ [OnSave (edit_values e0)] \<and> e' = e0\<lparr>is_editing := False\<rparr>"
  using assms by (auto simp: editable_card_run_append split: option.splits prod.splits if_splits)

text \<open>
  C18: sharing is local only. Whatever happens in the share
  modal leaves the cards, the favourite flag and the PDF requests unchanged, and the only
  message it can produce is the success message for the address typed in.
\<close>

theorem share_never_changes_deck:
  assumes "deck_page_step v p (ShareModalEvent e) = Some (p', als)"
  shows "cards p' = cards p \<and> is_favorite p' = is_favorite p \<and> pdf_requests p' = pdf_requests p
    \<and> (\<forall>x \<in> set als. x = AlertShared (recipient_email (share_modal p)))"
proof (cases e)
  case ClickShare
  with assms show ?thesis
    by (auto simp: share_handle_submit_def handle_share_submit_def Let_def split: if_splits)
qed (use assms in \<open>auto split: if_splits\<close>)

section \<open>Witnesses\<close>

theorem handle_add_appends_card_witness:
  "items (cards (handle_add (deck_page_init\<lparr>form_values := \<lparr>card_front = ''Q'', card_back = ''A''\<rparr>\<rparr>)))
     = items (cards deck_page_init) @ [(2, \<lparr>card_front = ''Q'', card_back = ''A''\<rparr>)]
   \<and> (2::nat) \<notin> set (map fst (items (cards deck_page_init)))"
proof -
  let ?p = "deck_page_init\<lparr>form_values := \<lparr>card_front = ''Q'', card_back = ''A''\<rparr>\<rparr>"
  have inv: "store_inv (cards ?p)" using deck_page_init_inv by (simp add: deck_page_inv_def)
  have n: "next_id (cards ?p) = 2" by (simp add: deck_page_init_def init_store_def)
  from handle_add_appends_card [OF inv] n show ?thesis by simp
qed

theorem card_callback_refines_witness:
  "store_abs (cards (card_callback_effect deck_page_init 1 OnDelete)) = Map.empty
   \<and> (1::nat) \<in> dom (store_abs (cards deck_page_init))"
proof -
  have inv: "store_inv (cards deck_page_init)" using deck_page_init_inv by (simp add: deck_page_inv_def)
  have d: "(1::nat) \<in> dom (store_abs (cards deck_page_init))"
    by (simp add: deck_page_init_def init_store_def store_abs_def)
  from card_callback_refines [OF inv d, of OnDelete] d show ?thesis
    by (simp add: deck_page_init_def init_store_def store_abs_def)
qed

theorem card_callback_keeps_order_witness:
  "map fst (items (cards (card_callback_effect deck_page_init 1 OnDelete))) = []
   \<and> (1::nat) \<in> set (map fst (items (cards deck_page_init)))"
proof -
  have d: "(1::nat) \<in> set (map fst (items (cards deck_page_init)))"
    by (simp add: deck_page_init_def init_store_def)
  from card_callback_keeps_order [OF d] d show ?thesis
    by (simp add: deck_page_init_def init_store_def)
qed

theorem pdf_response_failure_keeps_page_witness:
  "fst (handle_pdf_response deck_page_init
          (HttpResponse False (Some (FlashcardsBody None (Some ''bad pdf''))))) = deck_page_init
   \<and> (\<forall>n. AlertGenerated n \<notin> set (snd (handle_pdf_response deck_page_init
          (HttpResponse False (Some (FlashcardsBody None (Some ''bad pdf'')))))))"
  using pdf_response_failure_keeps_page
          [of "HttpResponse False (Some (FlashcardsBody None (Some ''bad pdf'')))" deck_page_init]
  by simp

theorem deck_page_run_store_inv_witness:
  "\<exists>p a. deck_page_run (\<lambda>_. True) deck_page_init [ClickAddCard, FormSubmit] = Some (p, a)
     \<and> store_inv (cards p)"
proof -
  obtain p a where run: "deck_page_run (\<lambda>_. True) deck_page_init [ClickAddCard, FormSubmit] = Some (p, a)"
    by simp
  show ?thesis using run deck_page_run_store_inv [OF run] by blast
qed

theorem deck_page_run_pdf_counts_witness:
  "\<exists>p a. deck_page_run (\<lambda>_. True) deck_page_init
            [ClickGeneratePdf, PdfModalEvent (SelectFile (Some ''notes.pdf'')),
             PdfModalEvent ClickGenerate] = Some (p, a)
     \<and> (''notes.pdf'', Some 10) \<in> set (pdf_requests p)
     \<and> (\<exists>k. Some (10::int) = Some k \<and> 1 \<le> k \<and> k \<le> 50)"
proof -
  obtain p a where run: "deck_page_run (\<lambda>_. True) deck_page_init
            [ClickGeneratePdf, PdfModalEvent (SelectFile (Some ''notes.pdf'')),
             PdfModalEvent ClickGenerate] = Some (p, a)"
    by (simp add: deck_page_init_def pdf_modal_init_def pdf_form_valid_def pdf_handle_submit_def
        handle_pdf_submit_def)
  have req: "(''notes.pdf'', Some 10) \<in> set (pdf_requests p)"
    using run by (auto simp: deck_page_init_def pdf_modal_init_def pdf_form_valid_def
        pdf_handle_submit_def handle_pdf_submit_def)
  show ?thesis using run req deck_page_run_pdf_counts [OF run req] by blast
qed

theorem share_never_changes_deck_witness:
  "deck_page_step (\<lambda>_. True)
     (deck_page_init\<lparr>show_share_modal := True,
                      share_modal := \<lparr>recipient_email = ''ann@uni.edu'', is_loading = False\<rparr>\<rparr>)
     (ShareModalEvent ClickShare)
   = Some (deck_page_init\<lparr>show_share_modal := False,
                            share_modal := \<lparr>recipient_email = [], is_loading = False\<rparr>\<rparr>,
           [AlertShared ''ann@uni.edu''])
   \<and> cards deck_page_init = cards deck_page_init"
proof -
  let ?p = "deck_page_init\<lparr>show_share_modal := True,
              share_modal := \<lparr>recipient_email = ''ann@uni.edu'', is_loading = False\<rparr>\<rparr>"
  have step: "deck_page_step (\<lambda>_. True) ?p (ShareModalEvent ClickShare)
     = Some (deck_page_init\<lparr>show_share_modal := False,
                            share_modal := \<lparr>recipient_email = [], is_loading = False\<rparr>\<rparr>,
           [AlertShared ''ann@uni.edu''])"
    by (simp add: share_handle_submit_def handle_share_submit_def Let_def)
  from share_never_changes_deck [OF step] step show ?thesis by simp
qed

theorem cancelled_edit_resurfaces_witness:
  "editable_card_run (editable_card_init \<lparr>card_front = ''Q'', card_back = ''A''\<rparr>)
     ([ClickEdit, ChangeFront ''Q2''] @ [ClickCancel, ClickEdit, ClickSave])
   = Some (\<lparr>is_editing = False, edit_values = \<lparr>card_front = ''Q2'', card_back = ''A''\<rparr>\<rparr>,
           [OnSave \<lparr>card_front = ''Q2'', card_back = ''A''\<rparr>])
   \<and> (\<exists>e0 cbs0. editable_card_run (editable_card_init \<lparr>card_front = ''Q'', card_back = ''A''\<rparr>)
          [ClickEdit, ChangeFront ''Q2''] = Some (e0, cbs0)
        \<and> [OnSave \<lparr>card_front = ''Q2'', card_back = ''A''\<rparr>] = cbs0 @ [OnSave (edit_values e0)])"
proof -
  have r: "editable_card_run (editable_card_init \<lparr>card_front = ''Q'', card_back = ''A''\<rparr>)
     ([ClickEdit, ChangeFront ''Q2''] @ [ClickCancel, ClickEdit, ClickSave])
   = Some (\<lparr>is_editing = False, edit_values = \<lparr>card_front = ''Q2'', card_back = ''A''\<rparr>\<rparr>,
           [OnSave \<lparr>card_front = ''Q2'', card_back = ''A''\<rparr>])"
    by (simp add: editable_card_init_def)
  from cancelled_edit_resurfaces [OF r] r show ?thesis by blast
qed

end
