(* ===== verification/Db_Connection.thy ===== *)
theory Db_Connection
  imports Prelude
begin

text \<open>
  The database connection of the server, \<open>src/backend/index.js\<close>: the process-wide
  cache \<open>global.mongoose = {conn, promise}\<close> (lines 72-77), \<open>connectToDatabase\<close>
  (lines 79-113) and the middleware that awaits it for each request (lines 118-126).

  \<open>connectToDatabase\<close> is \<open>async\<close> and suspends at two \<open>await\<close>s: the connection
  promise and \<open>dropIndex\<close>. Several requests can be suspended at once, so the model is
  a step machine over the cache and the program point of every request: a request
  arrives (runs up to its first \<open>await\<close>), the connection promise settles (the
  environment), a request waiting for the promise resumes, a request waiting for
  \<open>dropIndex\<close> resumes. \<open>server_step\<close> returns \<open>None\<close> for a step that is not
  enabled. \<open>'c\<close> is the type of the connection object \<open>mongoose.connect\<close> resolves to.
  The counters \<open>connect_calls\<close> and \<open>drop_calls\<close> count the calls of
  \<open>mongoose.connect\<close> (line 87) and of \<open>dropIndex\<close> (line 105).
\<close>

datatype 'c promise_state = Pending | Resolved 'c | Failed

record 'c cache =
  conn :: "'c option"
  promise :: "'c promise_state option"

text \<open>Where a request's middleware is: suspended at one of the two \<open>await\<close>s, or done.\<close>

datatype task = AwaitConnect | AwaitDrop | Proceeded | Answered500

record 'c server =
  cached :: "'c cache"
  tasks :: "nat \<Rightarrow> task option"
  connect_calls :: nat
  drop_calls :: nat

datatype 'c server_event = Arrive nat | Settle "'c option" | Resume nat | DropDone nat

definition server_init :: "'c server" where
  "server_init =
     \<lparr>cached = \<lparr>conn = None, promise = None\<rparr>, tasks = (\<lambda>_. None), connect_calls = 0, drop_calls = 0\<rparr>"

text \<open>
  A request arrives and the middleware calls \<open>connectToDatabase()\<close>: with a cached
  connection it returns at once and the middleware calls \<open>next()\<close>; otherwise it
  creates the connection promise if there is none (calling \<open>mongoose.connect\<close>) and
  suspends at \<open>await cached.promise\<close>.
\<close>

definition arrive :: "'c server \<Rightarrow> nat \<Rightarrow> 'c server" where
  "arrive s r =
     (case conn (cached s) of
        Some _ \<Rightarrow> s\<lparr>tasks := (tasks s)(r \<mapsto> Proceeded)\<rparr>
      | None \<Rightarrow>
          (case promise (cached s) of
             None \<Rightarrow> s\<lparr>cached := (cached s)\<lparr>promise := Some Pending\<rparr>,
                      connect_calls := Suc (connect_calls s),
                      tasks := (tasks s)(r \<mapsto> AwaitConnect)\<rparr>
           | Some _ \<Rightarrow> s\<lparr>tasks := (tasks s)(r \<mapsto> AwaitConnect)\<rparr>))"

text \<open>
  A request resumes from \<open>await cached.promise\<close>: on fulfilment it stores the connection
  in \<open>cached.conn\<close>, calls \<open>dropIndex\<close> and suspends again; on rejection the
  \<open>await\<close> throws, \<open>connectToDatabase\<close> rejects and the middleware answers 500.
  Nothing resets \<open>cached.promise\<close>.
\<close>

definition resume :: "'c server \<Rightarrow> nat \<Rightarrow> 'c server option" where
  "resume s r =
     (if tasks s r \<noteq> Some AwaitConnect then None
      else (case promise (cached s) of
              Some (Resolved c) \<Rightarrow>
                Some (s\<lparr>cached := (cached s)\<lparr>conn := Some c\<rparr>,
                        drop_calls := Suc (drop_calls s),
                        tasks := (tasks s)(r \<mapsto> AwaitDrop)\<rparr>)
            | Some Failed \<Rightarrow> Some (s\<lparr>tasks := (tasks s)(r \<mapsto> Answered500)\<rparr>)
            | _ \<Rightarrow> None))"

fun server_step :: "'c server \<Rightarrow> 'c server_event \<Rightarrow> 'c server option" where
  "server_step s (Arrive r) = (if tasks s r = None then Some (arrive s r) else None)"
| "server_step s (Settle x) =
     (if promise (cached s) = Some Pending
      then Some (s\<lparr>cached := (cached s)\<lparr>promise := Some (case x of Some c \<Rightarrow> Resolved c | None \<Rightarrow> Failed)\<rparr>\<rparr>)
      else None)"
| "server_step s (Resume r) = resume s r"
| "server_step s (DropDone r) =
     (if tasks s r = Some AwaitDrop then Some (s\<lparr>tasks := (tasks s)(r \<mapsto> Proceeded)\<rparr>) else None)"

fun server_run :: "'c server \<Rightarrow> 'c server_event list \<Rightarrow> 'c server option" where
  "server_run s [] = Some s"
| "server_run s (e # es) = (case server_step s e of None \<Rightarrow> None | Some t \<Rightarrow> server_run t es)"

inductive reachable :: "'c server \<Rightarrow> bool" where
  init: "reachable server_init"
| step: "reachable s \<Longrightarrow> server_step s e = Some t \<Longrightarrow> reachable t"

section \<open>The invariant of the connection cache\<close>

text \<open>
  \<open>mongoose.connect\<close> has been called exactly when a promise is cached; a cached
  connection is the value of the fulfilled promise; a request waits for the promise only
  when there is one; a request past the promise (waiting for \<open>dropIndex\<close> or done)
  has seen a connection; a request answered 500 has seen the promise fail.
\<close>

definition conn_inv :: "'c server \<Rightarrow> bool" where
  "conn_inv s \<longleftrightarrow>
     connect_calls s = (if promise (cached s) = None then 0 else 1)
   \<and> (\<forall>c. conn (cached s) = Some c \<longrightarrow> promise (cached s) = Some (Resolved c))
   \<and> (\<forall>r. tasks s r = Some AwaitConnect \<longrightarrow> promise (cached s) \<noteq> None)
   \<and> (\<forall>r. tasks s r = Some AwaitDrop \<or> tasks s r = Some Proceeded \<longrightarrow> conn (cached s) \<noteq> None)
   \<and> (\<forall>r. tasks s r = Some Answered500 \<longrightarrow> promise (cached s) = Some Failed)"

lemma conn_inv_init: "conn_inv server_init"
  by (simp add: conn_inv_def server_init_def)

lemma conn_inv_arrive: "conn_inv s \<Longrightarrow> conn_inv (arrive s r)"
  by (auto simp: conn_inv_def arrive_def split: option.splits)

lemma conn_inv_resume: "conn_inv s \<Longrightarrow> resume s r = Some t \<Longrightarrow> conn_inv t"
  by (auto simp: conn_inv_def resume_def split: if_splits option.splits promise_state.splits)

lemma conn_inv_step:
  assumes "conn_inv s" and "server_step s e = Some t"
  shows "conn_inv t"
proof (cases e)
  case (Arrive r)
  with assms show ?thesis by (auto intro: conn_inv_arrive split: if_splits)
next
  case (Settle x)
  with assms show ?thesis
    by (cases x) (auto simp: conn_inv_def split: if_splits)
next
  case (Resume r)
  with assms show ?thesis by (auto intro: conn_inv_resume)
next
  case (DropDone r)
  with assms show ?thesis by (auto simp: conn_inv_def split: if_splits)
qed

lemma reachable_conn_inv: "reachable s \<Longrightarrow> conn_inv s"
  by (induction rule: reachable.induct) (auto intro: conn_inv_init conn_inv_step)

lemma failed_step:
  assumes "conn_inv s" and "promise (cached s) = Some Failed" and "server_step s e = Some t"
  shows "promise (cached t) = Some Failed \<and> conn (cached t) = None
    \<and> connect_calls t = connect_calls s
    \<and> (\<forall>r. tasks t r = Some Proceeded \<longrightarrow> tasks s r = Some Proceeded)"
proof -
  have nc: "conn (cached s) = None"
    using assms(1,2) by (cases "conn (cached s)") (auto simp: conn_inv_def)
  have nd: "tasks s r \<noteq> Some AwaitDrop" for r
    using assms(1) nc by (auto simp: conn_inv_def)
  show ?thesis
    using assms(2,3) nc nd
    by (cases e) (auto simp: arrive_def resume_def split: if_splits)
qed

lemma failed_run:
  assumes "conn_inv s" and "promise (cached s) = Some Failed" and "server_run s es = Some t"
  shows "promise (cached t) = Some Failed \<and> connect_calls t = connect_calls s
    \<and> (\<forall>r. tasks t r = Some Proceeded \<longrightarrow> tasks s r = Some Proceeded)"
  using assms
proof (induction es arbitrary: s)
  case (Cons e es)
  then obtain u where u: "server_step s e = Some u" and run: "server_run u es = Some t"
    by (auto split: option.splits)
  from failed_step [OF Cons.prems(1,2) u] conn_inv_step [OF Cons.prems(1) u]
       Cons.IH [of u] run show ?case by auto
qed simp

lemma connected_arrivals:
  assumes "conn (cached s) = Some c" and "distinct rs" and "\<forall>q\<in>set rs. tasks s q = None"
  shows "\<exists>t. server_run s (map Arrive rs) = Some t \<and> cached t = cached s
    \<and> drop_calls t = drop_calls s \<and> connect_calls t = connect_calls s
    \<and> (\<forall>q. tasks t q = (if q \<in> set rs then Some Proceeded else tasks s q))"
  using assms
proof (induction rs arbitrary: s)
  case (Cons r rs)
  let ?u = "s\<lparr>tasks := (tasks s)(r \<mapsto> Proceeded)\<rparr>"
  have step: "server_step s (Arrive r) = Some ?u"
    using Cons.prems by (simp add: arrive_def)
  have pre: "\<forall>q\<in>set rs. tasks ?u q = None" using Cons.prems by auto
  from Cons.IH [OF _ _ pre] Cons.prems obtain t where
    t: "server_run ?u (map Arrive rs) = Some t" "cached t = cached s"
      "drop_calls t = drop_calls s" "connect_calls t = connect_calls s"
      "\<forall>q. tasks t q = (if q \<in> set rs then Some Proceeded else tasks ?u q)"
    by auto
  then show ?case using step by auto
qed simp

lemma server_run_append:
  "server_run s (xs @ ys) = (case server_run s xs of None \<Rightarrow> None | Some t \<Rightarrow> server_run t ys)"
  by (induction xs arbitrary: s) (auto split: option.splits)

lemma pending_arrivals:
  assumes "conn (cached s) = None" and "promise (cached s) \<noteq> None"
    and "distinct rs" and "\<forall>q\<in>set rs. tasks s q = None"
  shows "\<exists>t. server_run s (map Arrive rs) = Some t \<and> cached t = cached s
    \<and> connect_calls t = connect_calls s \<and> drop_calls t = drop_calls s
    \<and> (\<forall>q. tasks t q = (if q \<in> set rs then Some AwaitConnect else tasks s q))"
  using assms
proof (induction rs arbitrary: s)
  case (Cons r rs)
  let ?u = "s\<lparr>tasks := (tasks s)(r \<mapsto> AwaitConnect)\<rparr>"
  have step: "server_step s (Arrive r) = Some ?u"
    using Cons.prems by (auto simp: arrive_def)
  have pre: "\<forall>q\<in>set rs. tasks ?u q = None" using Cons.prems by auto
  from Cons.IH [OF _ _ _ pre] Cons.prems obtain t where
    "server_run ?u (map Arrive rs) = Some t" "cached t = cached s"
    "connect_calls t = connect_calls s" "drop_calls t = drop_calls s"
    "\<forall>q. tasks t q = (if q \<in> set rs then Some AwaitConnect else tasks ?u q)"
    by auto
  then show ?case using step by auto
qed simp

lemma resolved_resumes:
  assumes "promise (cached s) = Some (Resolved c)"
    and "distinct rs" and "\<forall>q\<in>set rs. tasks s q = Some AwaitConnect"
  shows "\<exists>t. server_run s (map Resume rs) = Some t \<and> promise (cached t) = Some (Resolved c)
    \<and> connect_calls t = connect_calls s \<and> drop_calls t = drop_calls s + length rs
    \<and> (\<forall>q. tasks t q = (if q \<in> set rs then Some AwaitDrop else tasks s q))"
  using assms
proof (induction rs arbitrary: s)
  case (Cons r rs)
  let ?u = "s\<lparr>cached := (cached s)\<lparr>conn := Some c\<rparr>, drop_calls := Suc (drop_calls s),
              tasks := (tasks s)(r \<mapsto> AwaitDrop)\<rparr>"
  have step: "server_step s (Resume r) = Some ?u"
    using Cons.prems by (simp add: resume_def)
  have pre: "\<forall>q\<in>set rs. tasks ?u q = Some AwaitConnect" using Cons.prems by auto
  from Cons.IH [OF _ _ pre] Cons.prems obtain t where
    "server_run ?u (map Resume rs) = Some t" "promise (cached t) = Some (Resolved c)"
    "connect_calls t = connect_calls s" "drop_calls t = Suc (drop_calls s) + length rs"
    "\<forall>q. tasks t q = (if q \<in> set rs then Some AwaitDrop else tasks ?u q)"
    by auto
  then show ?case using step by auto
qed simp

section \<open>Properties of the connection cache\<close>

text \<open>
  C15: the comment at line 103 holds for requests served one after
  another. When each request completes before the next arrives and the connection
  succeeds, \<open>mongoose.connect\<close> and \<open>dropIndex\<close> are called once each, and every
  request proceeds to \<open>next()\<close>.
\<close>

theorem sequential_requests_drop_once:
  assumes "distinct (r # rs)"
  shows "\<exists>t. server_run server_init ([Arrive r, Settle (Some c), Resume r, DropDone r] @ map Arrive rs) = Some t
    \<and> connect_calls t = 1 \<and> drop_calls t = 1 \<and> (\<forall>q\<in>set (r # rs). tasks t q = Some Proceeded)"
proof -
  let ?s1 = "\<lparr>cached = \<lparr>conn = Some c, promise = Some (Resolved c)\<rparr>,
              tasks = (\<lambda>_. None)(r \<mapsto> Proceeded), connect_calls = 1, drop_calls = 1\<rparr>"
  have first: "server_run server_init [Arrive r, Settle (Some c), Resume r, DropDone r] = Some ?s1"
    by (simp add: server_init_def arrive_def resume_def)
  have "\<forall>q\<in>set rs. tasks ?s1 q = None" using assms by auto
  from connected_arrivals [of ?s1 c rs, OF _ _ this] assms obtain t where
    "server_run ?s1 (map Arrive rs) = Some t" "cached t = cached ?s1"
    "drop_calls t = 1" "connect_calls t = 1"
    "\<forall>q. tasks t q = (if q \<in> set rs then Some Proceeded else tasks ?s1 q)"
    by auto
  moreover have "server_run server_init ([Arrive r, Settle (Some c), Resume r, DropDone r] @ map Arrive rs)
      = server_run ?s1 (map Arrive rs)"
    by (simp only: server_run_append first option.case)
  ultimately show ?thesis by auto
qed

text \<open>
  C4: safety. In every reachable state of the server, however the
  requests interleave, \<open>mongoose.connect\<close> has been called at most once: the promise
  is stored before the first \<open>await\<close>.
\<close>

theorem connect_called_at_most_once: "reachable s \<Longrightarrow> connect_calls s \<le> 1"
  by (drule reachable_conn_inv) (simp add: conn_inv_def)

text \<open>
  C5: safety. A request passes the middleware only once a
  connection is cached, and that connection is the value the connection promise
  fulfilled with.
\<close>

theorem proceeds_only_when_connected:
  assumes "reachable s" and "tasks s r = Some Proceeded"
  shows "\<exists>c. conn (cached s) = Some c \<and> promise (cached s) = Some (Resolved c)"
  using reachable_conn_inv [OF assms(1)] assms(2) by (auto simp: conn_inv_def)

text \<open>
  C1: a failed connection is never retried. Once the connection
  promise has rejected, no later step resets it: it stays rejected, \<open>mongoose.connect\<close>
  is never called again, and no request that had not passed the middleware before ever
  passes it.
\<close>

theorem failed_connection_never_retried:
  assumes "reachable s" and "promise (cached s) = Some Failed" and "server_run s es = Some t"
  shows "promise (cached t) = Some Failed \<and> connect_calls t = 1
    \<and> (\<forall>r. tasks t r = Some Proceeded \<longrightarrow> tasks s r = Some Proceeded)"
  using failed_run [OF reachable_conn_inv [OF assms(1)] assms(2,3)] reachable_conn_inv [OF assms(1)] assms(2)
  by (simp add: conn_inv_def)

text \<open>
  C12: after a failed connection, every new request is answered
  with status 500 as soon as it resumes.
\<close>

theorem failed_connection_answers_500:
  assumes "reachable s" and "promise (cached s) = Some Failed" and "tasks s r = None"
  shows "\<exists>t. server_run s [Arrive r, Resume r] = Some t \<and> tasks t r = Some Answered500"
proof -
  have "conn (cached s) = None"
    using reachable_conn_inv [OF assms(1)] assms(2)
    by (cases "conn (cached s)") (auto simp: conn_inv_def)
  with assms(2,3) show ?thesis by (simp add: arrive_def resume_def)
qed

text \<open>
  C10: the comment "runs only once per instance" (line 103) does not
  hold under concurrency. However many requests arrive before the connection promise
  settles, \<open>mongoose.connect\<close> is called once, but each of them resumes from the
  fulfilled promise and calls \<open>dropIndex\<close>: one call per waiting request.
\<close>

theorem drop_index_once_per_waiting_request:
  assumes "distinct (r # rs)"
  shows "\<exists>t. server_run server_init (map Arrive (r # rs) @ Settle (Some c) # map Resume (r # rs)) = Some t
    \<and> connect_calls t = 1 \<and> drop_calls t = length (r # rs)
    \<and> (\<forall>q\<in>set (r # rs). tasks t q = Some AwaitDrop)"
proof -
  let ?s1 = "(arrive server_init r) :: 'a server"
  have s1: "server_step server_init (Arrive r) = Some ?s1" by (simp add: server_init_def)
  have c1: "conn (cached ?s1) = None" "promise (cached ?s1) = Some Pending"
    "connect_calls ?s1 = 1" "drop_calls ?s1 = 0" "tasks ?s1 r = Some AwaitConnect"
    by (simp_all add: arrive_def server_init_def)
  have fresh: "\<forall>q\<in>set rs. tasks ?s1 q = None"
    using assms by (auto simp: arrive_def server_init_def)
  from pending_arrivals [of ?s1 rs] c1 fresh assms obtain s2 where
    s2: "server_run ?s1 (map Arrive rs) = Some s2" "cached s2 = cached ?s1"
    "connect_calls s2 = 1" "drop_calls s2 = 0"
    "\<forall>q. tasks s2 q = (if q \<in> set rs then Some AwaitConnect else tasks ?s1 q)"
    by auto
  let ?s3 = "s2\<lparr>cached := (cached s2)\<lparr>promise := Some (Resolved c)\<rparr>\<rparr>"
  have s3: "server_step s2 (Settle (Some c)) = Some ?s3" using s2(2) c1 by simp
  have waiting: "\<forall>q\<in>set (r # rs). tasks ?s3 q = Some AwaitConnect" using s2(5) c1 by auto
  from resolved_resumes [of ?s3 c "r # rs"] waiting assms obtain t where
    t: "server_run ?s3 (map Resume (r # rs)) = Some t" "connect_calls t = 1"
    "drop_calls t = length (r # rs)" "\<forall>q\<in>set (r # rs). tasks t q = Some AwaitDrop"
    using s2(3,4) by auto
  have "server_run server_init (map Arrive (r # rs) @ Settle (Some c) # map Resume (r # rs))
      = server_run ?s3 (map Resume (r # rs))"
    using s1 s2(1) s3 by (simp add: server_run_append)
  with t show ?thesis by auto
qed

section \<open>Witnesses\<close>

lemma reachable_run: "reachable s \<Longrightarrow> server_run s es = Some t \<Longrightarrow> reachable t"
proof (induction es arbitrary: s)
  case (Cons e es)
  then show ?case by (auto split: option.splits intro: reachable.step)
qed simp

lemma run_failed:
  "server_run (server_init :: nat server) [Arrive 1, Settle None]
     = Some \<lparr>cached = \<lparr>conn = None, promise = Some Failed\<rparr>, tasks = [1 \<mapsto> AwaitConnect],
             connect_calls = 1, drop_calls = 0\<rparr>"
  by (simp add: server_init_def arrive_def)

lemma run_connected:
  "server_run (server_init :: nat server) [Arrive 1, Settle (Some 7), Resume 1, DropDone 1]
     = Some \<lparr>cached = \<lparr>conn = Some 7, promise = Some (Resolved 7)\<rparr>, tasks = [1 \<mapsto> Proceeded],
             connect_calls = 1, drop_calls = 1\<rparr>"
  by (simp add: server_init_def arrive_def resume_def)

theorem sequential_requests_drop_once_witness:
  "\<exists>t. server_run server_init
          ([Arrive 1, Settle (Some (7::nat)), Resume 1, DropDone 1] @ map Arrive [2, 3]) = Some t
     \<and> connect_calls t = 1 \<and> drop_calls t = 1
     \<and> (\<forall>q\<in>set [1, 2, 3]. tasks t q = Some Proceeded)"
  using sequential_requests_drop_once [of 1 "[2, 3]" "7::nat"] by simp

theorem connect_called_at_most_once_witness:
  "connect_calls \<lparr>cached = \<lparr>conn = Some (7::nat), promise = Some (Resolved 7)\<rparr>,
      tasks = [1 \<mapsto> Proceeded], connect_calls = 1, drop_calls = 1\<rparr> \<le> 1"
  using connect_called_at_most_once [OF reachable_run [OF reachable.init run_connected]] .

theorem proceeds_only_when_connected_witness:
  "\<exists>c. conn (cached \<lparr>cached = \<lparr>conn = Some (7::nat), promise = Some (Resolved 7)\<rparr>,
          tasks = [1 \<mapsto> Proceeded], connect_calls = 1, drop_calls = 1\<rparr>) = Some c
     \<and> promise (cached \<lparr>cached = \<lparr>conn = Some (7::nat), promise = Some (Resolved 7)\<rparr>,
          tasks = [1 \<mapsto> Proceeded], connect_calls = 1, drop_calls = 1\<rparr>) = Some (Resolved c)"
  using proceeds_only_when_connected [OF reachable_run [OF reachable.init run_connected], of 1]
  by simp

theorem failed_connection_never_retried_witness:
  "\<exists>t. server_run \<lparr>cached = \<lparr>conn = None, promise = Some (Failed :: nat promise_state)\<rparr>,
          tasks = [1 \<mapsto> AwaitConnect], connect_calls = 1, drop_calls = 0\<rparr>
        [Arrive 2, Resume 2, Resume 1] = Some t
     \<and> promise (cached t) = Some Failed \<and> connect_calls t = 1 \<and> tasks t 2 = Some Answered500"
proof -
  let ?s = "\<lparr>cached = \<lparr>conn = None, promise = Some (Failed :: nat promise_state)\<rparr>,
          tasks = [1 \<mapsto> AwaitConnect], connect_calls = 1, drop_calls = 0\<rparr>"
  obtain t where run: "server_run ?s [Arrive 2, Resume 2, Resume 1] = Some t"
    and t2: "tasks t 2 = Some Answered500"
    by (simp add: arrive_def resume_def)
  from failed_connection_never_retried [OF reachable_run [OF reachable.init run_failed] _ run] run t2
  show ?thesis by auto
qed

theorem failed_connection_answers_500_witness:
  "\<exists>t. server_run \<lparr>cached = \<lparr>conn = None, promise = Some (Failed :: nat promise_state)\<rparr>,
          tasks = [1 \<mapsto> AwaitConnect], connect_calls = 1, drop_calls = 0\<rparr>
        [Arrive 2, Resume 2] = Some t \<and> tasks t 2 = Some Answered500"
  using failed_connection_answers_500 [OF reachable_run [OF reachable.init run_failed], of 2]
  by simp

theorem drop_index_once_per_waiting_request_witness:
  "\<exists>t. server_run server_init
         (map Arrive [1, 2, 3] @ Settle (Some (7::nat)) # map Resume [1, 2, 3]) = Some t
     \<and> connect_calls t = 1 \<and> drop_calls t = 3
     \<and> (\<forall>q\<in>set [1, 2, 3]. tasks t q = Some AwaitDrop)"
  using drop_index_once_per_waiting_request [of 1 "[2, 3]" "7::nat"] by (simp add: numeral_3_eq_3 del: server_run.simps)

end
