(* ===== verification/Express_App.thy ===== *)
theory Express_App
  imports Db_Connection
begin

text \<open>
  The request pipeline of the server, \<open>src/backend/index.js\<close>. Express runs the
  layers of an application in the order they were registered; a layer either answers
  the request or calls \<open>next()\<close>, and a request no layer answers gets 404. The
  layers are: the CORS middleware (lines 17-25), the JSON and URL-encoded body parsers
  (lines 27-28), the three routers mounted inside \<open>try\<close> (lines 37-50), the root route
  (lines 55-67) and the middleware that awaits \<open>connectToDatabase\<close> (lines 119-126).
  The routers under \<open>routes/\<close> are not among the sources: \<open>router\<close> is a parameter
  giving each router's outcome for a request. \<open>db_ok\<close> is whether
  \<open>connectToDatabase()\<close> resolves for the request (see \<open>Db_Connection\<close>: the request's
  task ends \<open>Proceeded\<close>, or \<open>Answered500\<close>).
\<close>

record request =
  req_method :: string
  req_path :: string
  json_error :: "nat option"
  urlencoded_error :: "nat option"

datatype layer = CorsLayer | JsonParser | UrlencodedParser | Mount string | RootRoute | DbMiddleware

datatype outcome = Respond nat | Next

text \<open>
  \<open>require\<close> of the three route files happens before any \<open>app.use\<close>, so either all
  three routers are mounted or, when a \<open>require\<close> throws, none is.
\<close>

definition app_layers :: "bool \<Rightarrow> layer list" where
  "app_layers routes_loaded =
     [CorsLayer, JsonParser, UrlencodedParser]
     @ (if routes_loaded then [Mount ''/api/users'', Mount ''/api/cards'', Mount ''/api/decks''] else [])
     @ [RootRoute, DbMiddleware]"

text \<open>
  Path matching of Express 4: a mount path matches the path itself and every path below
  it, case-insensitively; \<open>app.get('/')\<close> matches \<open>GET\<close> and \<open>HEAD\<close> of the root.
\<close>

definition ascii_lower :: "char \<Rightarrow> char" where
  "ascii_lower c = (let n = of_char c :: nat in if 65 \<le> n \<and> n \<le> 90 then char_of (n + 32) else c)"

definition mount_matches :: "string \<Rightarrow> string \<Rightarrow> bool" where
  "mount_matches mp p \<longleftrightarrow>
     (let lp = map ascii_lower p; lq = map ascii_lower mp
      in lp = lq \<or> take (Suc (length lq)) lp = lq @ ''/'')"

text \<open>
  One layer on one request. CORS answers a preflight \<open>OPTIONS\<close> with 200 and passes
  everything else on. The two body parsers answer with the status of their error when
  they reject the body and pass the request on otherwise: \<open>json_error\<close> is the status
  \<open>express.json()\<close> answers for this request (400 for a body that is not JSON, 413
  above its size limit), \<open>urlencoded_error\<close> the one \<open>express.urlencoded()\<close>
  answers (400, 413 above 100kb or 1000 parameters, 415 for an unsupported charset);
  each is \<open>None\<close> when the parser accepts the body or the body is not of its content
  type. The database middleware passes the request on when the connection succeeds and
  answers 500 otherwise.
\<close>

fun run_layer :: "(string \<Rightarrow> request \<Rightarrow> outcome) \<Rightarrow> bool \<Rightarrow> layer \<Rightarrow> request \<Rightarrow> outcome" where
  "run_layer router db_ok CorsLayer r = (if req_method r = ''OPTIONS'' then Respond 200 else Next)"
| "run_layer router db_ok JsonParser r = (case json_error r of Some n \<Rightarrow> Respond n | None \<Rightarrow> Next)"
| "run_layer router db_ok UrlencodedParser r =
     (case urlencoded_error r of Some n \<Rightarrow> Respond n | None \<Rightarrow> Next)"
| "run_layer router db_ok (Mount q) r = (if mount_matches q (req_path r) then router q r else Next)"
| "run_layer router db_ok RootRoute r =
     (if (req_method r = ''GET'' \<or> req_method r = ''HEAD'') \<and> req_path r = ''/'' then Respond 200 else Next)"
| "run_layer router db_ok DbMiddleware r = (if db_ok then Next else Respond 500)"

text \<open>The layers a request runs through, in order, and the status it gets.\<close>

fun dispatch ::
  "(string \<Rightarrow> request \<Rightarrow> outcome) \<Rightarrow> bool \<Rightarrow> layer list \<Rightarrow> request \<Rightarrow> layer list \<times> nat" where
  "dispatch router db_ok [] r = ([], 404)"
| "dispatch router db_ok (l # ls) r =
     (case run_layer router db_ok l r of
        Respond n \<Rightarrow> ([l], n)
      | Next \<Rightarrow> (let (vs, n) = dispatch router db_ok ls r in (l # vs, n)))"

text \<open>The port the server listens on: \<open>process.env.PORT || 8080\<close> (line 9).\<close>

definition server_port :: "string option \<Rightarrow> string" where
  "server_port env_port = (case env_port of None \<Rightarrow> ''8080'' | Some p \<Rightarrow> if p = [] then ''8080'' else p)"

text \<open>Three requests used by the witnesses below.\<close>

definition preflight :: request where
  "preflight = \<lparr>req_method = ''OPTIONS'', req_path = ''/api/cards/generate'',
     json_error = None, urlencoded_error = None\<rparr>"

definition generate_request :: request where
  "generate_request = \<lparr>req_method = ''POST'', req_path = ''/api/cards/generate'',
     json_error = None, urlencoded_error = None\<rparr>"

definition unknown_request :: request where
  "unknown_request = \<lparr>req_method = ''GET'', req_path = ''/health'',
     json_error = None, urlencoded_error = None\<rparr>"

section \<open>The order of the layers\<close>

lemma run_layer_db_indep:
  "l \<noteq> DbMiddleware \<Longrightarrow> run_layer router db l r = run_layer router db' l r"
  by (cases l) simp_all

lemma dispatch_responds_early:
  assumes "DbMiddleware \<notin> set ls" and "\<exists>l\<in>set ls. run_layer router db l r \<noteq> Next"
  shows "dispatch router db (ls @ ms) r = dispatch router db' (ls @ ms') r
    \<and> set (fst (dispatch router db (ls @ ms) r)) \<subseteq> set ls"
  using assms
proof (induction ls)
  case (Cons l ls)
  have indep: "run_layer router db l r = run_layer router db' l r"
    using Cons.prems(1) by (intro run_layer_db_indep) auto
  show ?case
  proof (cases "run_layer router db l r")
    case (Respond n)
    moreover from Respond indep have "run_layer router db' l r = Respond n" by simp
    ultimately show ?thesis by simp
  next
    case Next
    with Cons.prems have "\<exists>l\<in>set ls. run_layer router db l r \<noteq> Next" by auto
    with Cons.IH Cons.prems(1) Next indep show ?thesis
      by (auto split: prod.splits)
  qed
qed simp

lemma dispatch_reaches_last:
  assumes "l \<notin> set ls" and "l \<in> set (fst (dispatch router db (ls @ [l]) r))"
  shows "snd (dispatch router db (ls @ [l]) r)
    = (case run_layer router db l r of Respond n \<Rightarrow> n | Next \<Rightarrow> 404)"
  using assms
proof (induction ls)
  case Nil
  then show ?case by (auto split: outcome.splits prod.splits)
next
  case (Cons k ls)
  then show ?case by (auto split: outcome.splits prod.splits)
qed

section \<open>Properties of the pipeline\<close>

text \<open>
  C16: a CORS preflight request (\<open>OPTIONS\<close>) is answered 200 by
  the first middleware and reaches no other layer, whatever the routers and the database.
\<close>

theorem options_preflight_answered_by_cors:
  "req_method r = ''OPTIONS'' \<Longrightarrow> dispatch router db_ok (app_layers loaded) r = ([CorsLayer], 200)"
  by (simp add: app_layers_def)

text \<open>
  C2: the middleware that ensures a database connection
  (lines 118-126) is registered after the routers, so it never runs before a request the
  routers answer: such a request never reaches it, and its response is the same whether
  or not the database connection succeeds.
\<close>

theorem api_request_bypasses_db_middleware:
  assumes "q \<in> {''/api/users'', ''/api/cards'', ''/api/decks''}"
    and "mount_matches q (req_path r)" and "router q r = Respond n"
  shows "DbMiddleware \<notin> set (fst (dispatch router db_ok (app_layers True) r))
    \<and> dispatch router True (app_layers True) r = dispatch router False (app_layers True) r"
proof -
  let ?ls = "[CorsLayer, JsonParser, UrlencodedParser,
              Mount ''/api/users'', Mount ''/api/cards'', Mount ''/api/decks'']"
  have lay: "app_layers True = ?ls @ [RootRoute, DbMiddleware]" by (simp add: app_layers_def)
  have "Mount q \<in> set ?ls" and "run_layer router b (Mount q) r \<noteq> Next" for b
    using assms by auto
  then have resp: "\<exists>l\<in>set ?ls. run_layer router b l r \<noteq> Next" for b by blast
  have nodb: "DbMiddleware \<notin> set ?ls" by simp
  note f1 = dispatch_responds_early [OF nodb resp, of db_ok "[RootRoute, DbMiddleware]" db_ok "[RootRoute, DbMiddleware]"]
  note f2 = dispatch_responds_early [OF nodb resp, of True "[RootRoute, DbMiddleware]" False "[RootRoute, DbMiddleware]"]
  show ?thesis unfolding lay using f1 f2 nodb by blast
qed

text \<open>
  C13: every request that does reach the database middleware is
  one no earlier layer answered, and it ends with 404 when the connection succeeds and
  500 when it fails: the middleware guards no route.
\<close>

theorem db_middleware_guards_nothing:
  assumes "DbMiddleware \<in> set (fst (dispatch router db_ok (app_layers loaded) r))"
  shows "snd (dispatch router db_ok (app_layers loaded) r) = (if db_ok then 404 else 500)"
proof -
  let ?ls = "[CorsLayer, JsonParser, UrlencodedParser]
     @ (if loaded then [Mount ''/api/users'', Mount ''/api/cards'', Mount ''/api/decks''] else [])
     @ [RootRoute]"
  have lay: "app_layers loaded = ?ls @ [DbMiddleware]" by (simp add: app_layers_def)
  have "DbMiddleware \<notin> set ?ls" by simp
  from dispatch_reaches_last [OF this] assms show ?thesis unfolding lay by simp
qed

section \<open>Witnesses\<close>

theorem options_preflight_answered_by_cors_witness:
  "dispatch (\<lambda>_ _. Respond 201) False (app_layers True) preflight = ([CorsLayer], 200)"
  using options_preflight_answered_by_cors [of preflight] by (simp add: preflight_def)

theorem api_request_bypasses_db_middleware_witness:
  "DbMiddleware \<notin> set (fst (dispatch (\<lambda>_ _. Respond 201) False (app_layers True) generate_request))
   \<and> mount_matches ''/api/cards'' (req_path generate_request)"
proof -
  have m: "mount_matches ''/api/cards'' (req_path generate_request)"
    by (simp add: mount_matches_def generate_request_def ascii_lower_def)
  from api_request_bypasses_db_middleware [of "''/api/cards''", OF _ m, of "\<lambda>_ _. Respond 201" 201 False] m
  show ?thesis by simp
qed

theorem db_middleware_guards_nothing_witness:
  "snd (dispatch (\<lambda>_ _. Next) True (app_layers True) unknown_request) = 404
   \<and> DbMiddleware \<in> set (fst (dispatch (\<lambda>_ _. Next) True (app_layers True) unknown_request))"
proof -
  have v: "DbMiddleware \<in> set (fst (dispatch (\<lambda>_ _. Next) True (app_layers True) unknown_request))"
    by (simp add: app_layers_def unknown_request_def)
  from db_middleware_guards_nothing [OF v] v show ?thesis by simp
qed

end
