(* ===== verification/Form_Validation.thy ===== *)
theory Form_Validation
  imports Prelude
begin

text \<open>
  Form validation of the sign-in and sign-up pages,
  \<open>src/frontend/src/pages/Signin.jsx\<close> and \<open>src/frontend/src/pages/Signup.jsx\<close>.
  Both pages declare the same two regular expressions (line 6 and 7 of each):
  \<^verbatim>\<open>emailRegex    = /^[^\s@]+@[^\s@]+\.[^\s@]+$/\<close>
  \<^verbatim>\<open>passwordRegex = /^(?=.*[a-z])(?=.*[A-Z])(?=.*\d).+$/\<close>
  \<open>email_regex_test\<close> and \<open>password_regex_test\<close> are their \<open>test\<close> methods, written
  as backtracking matchers that follow the structure of the expressions: each quantifier
  either stops or consumes one more character. \<open>email_shape\<close> and
  \<open>password_shape\<close> describe the languages declaratively; the equivalence theorems
  relate the two. \<open>signin_validate\<close> and \<open>signup_validate\<close> are the pages'
  \<open>validate\<close> functions, \<open>signin_submit\<close> and \<open>signup_submit\<close> their
  \<open>handleSubmit\<close>. \<open>signin_step\<close> and \<open>signup_step\<close> are the pages themselves:
  their \<open>useState\<close> fields as a record and one step per typed field, submit or
  navigation button; \<open>signin_run\<close> and \<open>signup_run\<close> run a sequence of events
  until the page navigates away.
\<close>

section \<open>The two regular expressions\<close>

text \<open>The character class \<open>[^\s@]\<close>, and the classes of the password's lookaheads.\<close>

definition email_class :: "char \<Rightarrow> bool" where
  "email_class c \<longleftrightarrow> \<not> js_space c \<and> c \<noteq> CHR ''@''"

definition is_lower :: "char \<Rightarrow> bool" where
  "is_lower c \<longleftrightarrow> of_char c \<in> {97..122 :: nat}"

definition is_upper :: "char \<Rightarrow> bool" where
  "is_upper c \<longleftrightarrow> of_char c \<in> {65..90 :: nat}"

definition is_digit :: "char \<Rightarrow> bool" where
  "is_digit c \<longleftrightarrow> of_char c \<in> {48..57 :: nat}"

text \<open>
  \<open>[^\s@]+\.[^\s@]+$\<close> from some position: \<open>seen\<close> says whether the first
  \<open>+\<close> has consumed a character yet. At each character the matcher either leaves the
  first group and reads the dot, or reads the character into the first group.
\<close>

fun dot_part :: "bool \<Rightarrow> string \<Rightarrow> bool" where
  "dot_part seen [] = False"
| "dot_part seen (c # cs) =
     ((seen \<and> c = CHR ''.'' \<and> cs \<noteq> [] \<and> list_all email_class cs)
      \<or> (email_class c \<and> dot_part True cs))"

text \<open>\<open>^[^\s@]+@\<close> followed by \<open>dot_part\<close>, with the same two choices.\<close>

fun local_part :: "bool \<Rightarrow> string \<Rightarrow> bool" where
  "local_part seen [] = False"
| "local_part seen (c # cs) =
     ((seen \<and> c = CHR ''@'' \<and> dot_part False cs)
      \<or> (email_class c \<and> local_part True cs))"

definition email_regex_test :: "string \<Rightarrow> bool" where
  "email_regex_test s = local_part False s"

text \<open>
  \<open>(?=.*P)\<close> at the start: some character satisfies \<open>P\<close> and no line terminator
  comes before it (\<open>.\<close> does not match a line terminator).
\<close>

fun lookahead :: "(char \<Rightarrow> bool) \<Rightarrow> string \<Rightarrow> bool" where
  "lookahead P [] = False"
| "lookahead P (c # cs) = (P c \<or> (\<not> js_line_terminator c \<and> lookahead P cs))"

definition password_regex_test :: "string \<Rightarrow> bool" where
  "password_regex_test s \<longleftrightarrow>
     lookahead is_lower s \<and> lookahead is_upper s \<and> lookahead is_digit s
     \<and> s \<noteq> [] \<and> list_all (\<lambda>c. \<not> js_line_terminator c) s"

text \<open>The languages, declaratively.\<close>

definition email_shape :: "string \<Rightarrow> bool" where
  "email_shape s \<longleftrightarrow>
     (\<exists>a b c. s = a @ CHR ''@'' # b @ CHR ''.'' # c \<and> a \<noteq> [] \<and> b \<noteq> [] \<and> c \<noteq> []
        \<and> list_all email_class a \<and> list_all email_class b \<and> list_all email_class c)"

definition password_shape :: "string \<Rightarrow> bool" where
  "password_shape s \<longleftrightarrow>
     s \<noteq> [] \<and> (\<forall>c\<in>set s. \<not> js_line_terminator c)
     \<and> (\<exists>c\<in>set s. is_lower c) \<and> (\<exists>c\<in>set s. is_upper c) \<and> (\<exists>c\<in>set s. is_digit c)"

section \<open>Sign-in\<close>

datatype signin_error = EmailRequired | EmailInvalid | PasswordRequired | PasswordWeak

fun signin_message :: "signin_error \<Rightarrow> string" where
  "signin_message EmailRequired = ''Email is required.''"
| "signin_message EmailInvalid = ''Please enter a valid email address.''"
| "signin_message PasswordRequired = ''Password is required.''"
| "signin_message PasswordWeak =
     ''Password must include at least one uppercase, one lowercase letter, and one digit.''"

text \<open>\<open>validate\<close> of \<open>Signin\<close>: the checks in order, the first failure wins.\<close>

definition signin_validate :: "string \<Rightarrow> string \<Rightarrow> signin_error option" where
  "signin_validate email password =
     (if js_trim email = [] then Some EmailRequired
      else if \<not> email_regex_test email then Some EmailInvalid
      else if password = [] then Some PasswordRequired
      else if \<not> password_regex_test password then Some PasswordWeak
      else None)"

datatype submit_result = ShowError string | Navigate string

definition signin_submit :: "string \<Rightarrow> string \<Rightarrow> submit_result" where
  "signin_submit email password =
     (case signin_validate email password of
        Some e \<Rightarrow> ShowError (signin_message e)
      | None \<Rightarrow> Navigate ''/dashboard'')"

section \<open>Sign-up\<close>

text \<open>\<open>validate\<close> of \<open>Signup\<close> collects one message per field in the object \<open>e\<close>.\<close>

record signup_errors =
  name_error :: "string option"
  email_error :: "string option"
  password_error :: "string option"
  confirm_error :: "string option"

definition signup_validate :: "string \<Rightarrow> string \<Rightarrow> string \<Rightarrow> string \<Rightarrow> signup_errors" where
  "signup_validate name email password confirm =
     \<lparr>name_error = (if js_trim name = [] then Some ''Name is required.'' else None),
      email_error =
        (if js_trim email = [] then Some ''Email is required.''
         else if \<not> email_regex_test email then Some ''Enter a valid email address.'' else None),
      password_error =
        (if password = [] then Some ''Password is required.''
         else if \<not> password_regex_test password
         then Some ''Password must include at least one uppercase, one lowercase letter, and one digit.''
         else None),
      confirm_error =
        (if confirm = [] then Some ''Please confirm your password.''
         else if password \<noteq> confirm then Some ''Passwords do not match.'' else None)\<rparr>"

definition signup_ok :: "signup_errors \<Rightarrow> bool" where
  "signup_ok e \<longleftrightarrow>
     name_error e = None \<and> email_error e = None \<and> password_error e = None \<and> confirm_error e = None"

definition signup_submit :: "string \<Rightarrow> string \<Rightarrow> string \<Rightarrow> string \<Rightarrow> signup_errors \<times> string option" where
  "signup_submit name email password confirm =
     (let e = signup_validate name email password confirm
      in (e, if signup_ok e then Some ''/dashboard'' else None))"

section \<open>The sign-in and sign-up pages\<close>

text \<open>
  The state of \<open>Signin\<close> (its three \<open>useState\<close> fields, lines 11-13) and its
  events: the two \<open>onChange\<close> handlers, the submit of the form and the two buttons
  that call \<open>navigate\<close>. A step returns the new state and the route it navigates to,
  if any; navigating leaves the page, so a run stops there.
\<close>

text \<open>
  Both email fields are \<open><input type="email">\<close> (Signin.jsx line 62, Signup.jsx
  line 55). The browser sanitizes the value of such an input: it removes line breaks and
  then leading and trailing ASCII white space (tab, line feed, form feed, carriage return,
  space), and \<open>e.target.value\<close> is the sanitized value. No-break space and the
  vertical tab are white space for JavaScript's \<open>\s\<close> and \<open>trim\<close> but not ASCII
  white space, so they reach the handlers.
\<close>

definition ascii_whitespace :: "char \<Rightarrow> bool" where
  "ascii_whitespace c \<longleftrightarrow> of_char c \<in> {9, 10, 12, 13, 32 :: nat}"

definition email_input_value :: "string \<Rightarrow> string" where
  "email_input_value v =
     (let w = filter (\<lambda>c. of_char c \<notin> {10, 13 :: nat}) v
      in rev (dropWhile ascii_whitespace (rev (dropWhile ascii_whitespace w))))"

record signin_page =
  si_email :: string
  si_password :: string
  si_error :: string

datatype signin_event =
    SiTypeEmail string | SiTypePassword string | SiSubmit | SiClickHome | SiClickSignup

definition signin_page_init :: signin_page where
  "signin_page_init = \<lparr>si_email = [], si_password = [], si_error = []\<rparr>"

fun signin_step :: "signin_page \<Rightarrow> signin_event \<Rightarrow> signin_page \<times> string option" where
  "signin_step p (SiTypeEmail v) = (p\<lparr>si_email := email_input_value v\<rparr>, None)"
| "signin_step p (SiTypePassword v) = (p\<lparr>si_password := v\<rparr>, None)"
| "signin_step p SiSubmit =
     (case signin_validate (si_email p) (si_password p) of
        Some e \<Rightarrow> (p\<lparr>si_error := signin_message e\<rparr>, None)
      | None \<Rightarrow> (p\<lparr>si_error := []\<rparr>, Some ''/dashboard''))"
| "signin_step p SiClickHome = (p, Some ''/'')"
| "signin_step p SiClickSignup = (p, Some ''/signup'')"

fun signin_run :: "signin_page \<Rightarrow> signin_event list \<Rightarrow> signin_page \<times> string option" where
  "signin_run p [] = (p, None)"
| "signin_run p (ev # evs) =
     (case signin_step p ev of (p', Some r) \<Rightarrow> (p', Some r) | (p', None) \<Rightarrow> signin_run p' evs)"

text \<open>The same for \<open>Signup\<close> (lines 11-15), whose errors are the object \<open>e\<close>.\<close>

record signup_page =
  su_name :: string
  su_email :: string
  su_password :: string
  su_confirm :: string
  su_errors :: signup_errors

datatype signup_event =
    SuTypeName string | SuTypeEmail string | SuTypePassword string | SuTypeConfirm string
  | SuSubmit | SuClickHome | SuClickSignin

definition no_signup_errors :: signup_errors where
  "no_signup_errors = \<lparr>name_error = None, email_error = None, password_error = None, confirm_error = None\<rparr>"

definition signup_page_init :: signup_page where
  "signup_page_init =
     \<lparr>su_name = [], su_email = [], su_password = [], su_confirm = [], su_errors = no_signup_errors\<rparr>"

fun signup_step :: "signup_page \<Rightarrow> signup_event \<Rightarrow> signup_page \<times> string option" where
  "signup_step p (SuTypeName v) = (p\<lparr>su_name := v\<rparr>, None)"
| "signup_step p (SuTypeEmail v) = (p\<lparr>su_email := email_input_value v\<rparr>, None)"
| "signup_step p (SuTypePassword v) = (p\<lparr>su_password := v\<rparr>, None)"
| "signup_step p (SuTypeConfirm v) = (p\<lparr>su_confirm := v\<rparr>, None)"
| "signup_step p SuSubmit =
     (let (e, nav) = signup_submit (su_name p) (su_email p) (su_password p) (su_confirm p)
      in (p\<lparr>su_errors := e\<rparr>, nav))"
| "signup_step p SuClickHome = (p, Some ''/'')"
| "signup_step p SuClickSignin = (p, Some ''/signin'')"

fun signup_run :: "signup_page \<Rightarrow> signup_event list \<Rightarrow> signup_page \<times> string option" where
  "signup_run p [] = (p, None)"
| "signup_run p (ev # evs) =
     (case signup_step p ev of (p', Some r) \<Rightarrow> (p', Some r) | (p', None) \<Rightarrow> signup_run p' evs)"

section \<open>Lemmas on the matchers\<close>

lemma dot_part_iff:
  "dot_part seen cs \<longleftrightarrow>
     (\<exists>b c. cs = b @ CHR ''.'' # c \<and> (seen \<or> b \<noteq> []) \<and> c \<noteq> []
        \<and> list_all email_class b \<and> list_all email_class c)"
proof (induction cs arbitrary: seen)
  case (Cons x xs)
  show ?case
  proof
    assume "dot_part seen (x # xs)"
    then show "\<exists>b c. x # xs = b @ CHR ''.'' # c \<and> (seen \<or> b \<noteq> []) \<and> c \<noteq> []
        \<and> list_all email_class b \<and> list_all email_class c"
    proof (cases "seen \<and> x = CHR ''.'' \<and> xs \<noteq> [] \<and> list_all email_class xs")
      case True
      then show ?thesis by (intro exI [of _ "[]"] exI [of _ xs]) simp
    next
      case False
      with \<open>dot_part seen (x # xs)\<close> have "email_class x" "dot_part True xs" by auto
      with Cons.IH [of True] obtain b c where "xs = b @ CHR ''.'' # c" "c \<noteq> []"
        "list_all email_class b" "list_all email_class c" by auto
      with \<open>email_class x\<close> show ?thesis by (intro exI [of _ "x # b"] exI [of _ c]) simp
    qed
  next
    assume "\<exists>b c. x # xs = b @ CHR ''.'' # c \<and> (seen \<or> b \<noteq> []) \<and> c \<noteq> []
        \<and> list_all email_class b \<and> list_all email_class c"
    then obtain b c where bc: "x # xs = b @ CHR ''.'' # c" "seen \<or> b \<noteq> []" "c \<noteq> []"
        "list_all email_class b" "list_all email_class c" by blast
    show "dot_part seen (x # xs)"
    proof (cases b)
      case Nil
      with bc show ?thesis by simp
    next
      case (Cons y b')
      with bc have "xs = b' @ CHR ''.'' # c" "email_class x" "list_all email_class b'" by auto
      with bc Cons.IH [of True] show ?thesis by auto
    qed
  qed
qed simp

lemma local_part_iff:
  "local_part seen s \<longleftrightarrow>
     (\<exists>a r. s = a @ CHR ''@'' # r \<and> (seen \<or> a \<noteq> []) \<and> list_all email_class a \<and> dot_part False r)"
proof (induction s arbitrary: seen)
  case (Cons x xs)
  show ?case
  proof
    assume "local_part seen (x # xs)"
    then show "\<exists>a r. x # xs = a @ CHR ''@'' # r \<and> (seen \<or> a \<noteq> []) \<and> list_all email_class a \<and> dot_part False r"
    proof (cases "seen \<and> x = CHR ''@'' \<and> dot_part False xs")
      case True
      then show ?thesis by (intro exI [of _ "[]"] exI [of _ xs]) simp
    next
      case False
      with \<open>local_part seen (x # xs)\<close> have "email_class x" "local_part True xs" by auto
      with Cons.IH [of True] obtain a r where "xs = a @ CHR ''@'' # r"
        "list_all email_class a" "dot_part False r" by auto
      with \<open>email_class x\<close> show ?thesis by (intro exI [of _ "x # a"] exI [of _ r]) simp
    qed
  next
    assume "\<exists>a r. x # xs = a @ CHR ''@'' # r \<and> (seen \<or> a \<noteq> []) \<and> list_all email_class a \<and> dot_part False r"
    then obtain a r where ar: "x # xs = a @ CHR ''@'' # r" "seen \<or> a \<noteq> []"
        "list_all email_class a" "dot_part False r" by blast
    show "local_part seen (x # xs)"
    proof (cases a)
      case Nil
      with ar show ?thesis by simp
    next
      case (Cons y a')
      with ar have "xs = a' @ CHR ''@'' # r" "email_class x" "list_all email_class a'" by auto
      with ar Cons.IH [of True] show ?thesis by auto
    qed
  qed
qed simp

lemma lookahead_iff:
  "list_all (\<lambda>c. \<not> js_line_terminator c) s \<Longrightarrow> lookahead P s \<longleftrightarrow> (\<exists>c\<in>set s. P c)"
  by (induction s) auto

lemma email_regex_first_char: "email_regex_test s \<Longrightarrow> \<exists>c cs. s = c # cs \<and> email_class c"
  unfolding email_regex_test_def by (cases s) auto

lemma email_class_not_space: "email_class c \<Longrightarrow> \<not> js_space c"
  by (simp add: email_class_def)

lemma email_regex_not_blank: "email_regex_test s \<Longrightarrow> js_trim s \<noteq> []"
  by (auto dest!: email_regex_first_char simp: email_class_not_space)

lemma password_regex_not_empty: "password_regex_test s \<Longrightarrow> s \<noteq> []"
  by (simp add: password_regex_test_def)

lemma email_regex_space_first: "js_space c \<Longrightarrow> \<not> email_regex_test (c # s)"
  by (simp add: email_regex_test_def email_class_def)

lemma email_regex_no_space:
  assumes "email_regex_test s"
  shows "list_all (\<lambda>x. \<not> js_space x) s"
proof -
  from assms obtain a b c where s: "s = a @ CHR ''@'' # b @ CHR ''.'' # c"
    and "list_all email_class a" "list_all email_class b" "list_all email_class c"
    unfolding email_regex_test_def local_part_iff dot_part_iff by blast
  moreover have "\<not> js_space (CHR ''@'')" "\<not> js_space (CHR ''.'')"
    by (simp_all add: js_space_def)
  ultimately show ?thesis by (auto simp: list_all_iff dest: email_class_not_space)
qed

lemma ascii_whitespace_js_space: "ascii_whitespace c \<Longrightarrow> js_space c"
  by (auto simp: ascii_whitespace_def js_space_def)

lemma email_input_value_id:
  assumes "list_all (\<lambda>x. \<not> ascii_whitespace x) v"
  shows "email_input_value v = v"
proof -
  have "filter (\<lambda>c. of_char c \<notin> {10, 13 :: nat}) v = v"
    using assms by (auto simp: list_all_iff ascii_whitespace_def intro!: filter_True)
  with assms show ?thesis by (simp add: email_input_value_def dropWhile_none)
qed

lemma email_input_value_padded:
  assumes "email_regex_test email" and "\<not> ascii_whitespace c"
  shows "email_input_value (c # email) = c # email"
  using email_regex_no_space [OF assms(1)] assms(2)
  by (intro email_input_value_id) (auto simp: list_all_iff dest: ascii_whitespace_js_space)

lemma signin_validate_padded:
  assumes "email_regex_test email" and "js_space c"
  shows "signin_validate (c # email) password = Some EmailInvalid"
proof -
  have "js_trim (c # email) \<noteq> []"
    using email_regex_not_blank [OF assms(1)] by (auto simp: list_all_iff)
  with email_regex_space_first [OF assms(2)] show ?thesis
    by (simp add: signin_validate_def)
qed

lemma signup_validate_ok_iff:
  "signup_ok (signup_validate name email password confirm)
   \<longleftrightarrow> js_trim name \<noteq> [] \<and> email_regex_test email \<and> password_regex_test password
       \<and> confirm = password"
  by (auto simp: signup_ok_def signup_validate_def
      dest: email_regex_not_blank password_regex_not_empty)

section \<open>Lemmas on the pages\<close>

lemma signin_step_dashboard:
  "signin_step p ev = (p', Some ''/dashboard'') \<Longrightarrow>
     ev = SiSubmit \<and> signin_validate (si_email p') (si_password p') = None \<and> si_error p' = []"
  by (cases ev) (auto split: option.splits)

lemma signup_step_dashboard:
  "signup_step p ev = (p', Some ''/dashboard'') \<Longrightarrow>
     ev = SuSubmit \<and> snd (signup_submit (su_name p') (su_email p') (su_password p') (su_confirm p'))
       = Some ''/dashboard''"
  by (cases ev) (auto simp: signup_submit_def Let_def split: if_splits)

section \<open>Properties of form validation\<close>

text \<open>
  C21: equivalence. The matcher of \<open>emailRegex\<close> accepts exactly the strings
  of the form \<open>a@b.c\<close> with \<open>a\<close>, \<open>b\<close>, \<open>c\<close> non-empty and free of white space
  and \<open>@\<close>; \<open>b\<close> and \<open>c\<close> may contain further dots.
\<close>

theorem email_regex_equiv: "email_regex_test s \<longleftrightarrow> email_shape s"
  unfolding email_regex_test_def email_shape_def local_part_iff dot_part_iff by auto

text \<open>
  C22: equivalence. The matcher of \<open>passwordRegex\<close> accepts exactly the
  non-empty strings without line terminators that contain a lowercase letter, an
  uppercase letter and a digit (ASCII).
\<close>

theorem password_regex_equiv: "password_regex_test s \<longleftrightarrow> password_shape s"
proof (cases "list_all (\<lambda>c. \<not> js_line_terminator c) s")
  case True
  then show ?thesis
    by (auto simp: password_regex_test_def password_shape_def lookahead_iff list_all_iff)
next
  case False
  then show ?thesis
    by (auto simp: password_regex_test_def password_shape_def list_all_iff)
qed

text \<open>
  C19: the sign-in form passes validation exactly when the email
  matches \<open>emailRegex\<close> and the password matches \<open>passwordRegex\<close>; the two
  "required" checks add nothing but their messages.
\<close>

theorem signin_validate_accepts_iff:
  "signin_validate email password = None \<longleftrightarrow> email_regex_test email \<and> password_regex_test password"
  by (auto simp: signin_validate_def dest: email_regex_not_blank password_regex_not_empty)

text \<open>
  C23: the emptiness check trims the email but the format check
  does not: an address that is valid on its own is rejected as "Please enter a valid
  email address." when it starts with white space, and sign-in shows that error.
  (On the page the browser strips ASCII white space from the field first; see \<open>signin_page_padded_email_rejected\<close>.)
\<close>

theorem signin_padded_email_rejected:
  assumes "email_regex_test email" and "js_space c"
  shows "signin_validate (c # email) password = Some EmailInvalid
    \<and> signin_submit (c # email) password = ShowError ''Please enter a valid email address.''"
  using signin_validate_padded [OF assms] by (simp add: signin_submit_def)

text \<open>
  C20: the sign-up form passes validation, and the page navigates to
  the dashboard, exactly when the name is not blank, the email matches
  \<open>emailRegex\<close>, the password matches \<open>passwordRegex\<close> and the confirmation
  equals the password.
\<close>

theorem signup_accepts_iff:
  "snd (signup_submit name email password confirm) = Some ''/dashboard''
   \<longleftrightarrow> js_trim name \<noteq> [] \<and> email_regex_test email \<and> password_regex_test password
       \<and> confirm = password"
  by (simp add: signup_submit_def signup_validate_ok_iff Let_def)

text \<open>
  C24: the sign-in page navigates to the dashboard only from a
  state whose email matches \<open>emailRegex\<close> and whose password matches
  \<open>passwordRegex\<close>, with the error cleared, whatever the events before.
\<close>

theorem signin_navigates_only_valid:
  assumes "signin_run p evs = (p', Some ''/dashboard'')"
  shows "email_regex_test (si_email p') \<and> password_regex_test (si_password p') \<and> si_error p' = []"
  using assms
proof (induction p evs rule: signin_run.induct)
  case (2 p ev evs)
  then show ?case
    by (auto split: prod.splits option.splits if_splits
        dest!: signin_step_dashboard simp: signin_validate_def)
qed simp

text \<open>
  C25: the sign-up page navigates to the dashboard only from a
  state with a non-blank name, a valid email and password and a matching confirmation.
\<close>

theorem signup_navigates_only_valid:
  assumes "signup_run p evs = (p', Some ''/dashboard'')"
  shows "js_trim (su_name p') \<noteq> [] \<and> email_regex_test (su_email p')
    \<and> password_regex_test (su_password p') \<and> su_confirm p' = su_password p'"
  using assms
proof (induction p evs rule: signup_run.induct)
  case (2 p ev evs)
  then show ?case
    by (auto split: prod.splits option.splits dest!: signup_step_dashboard
        simp: signup_submit_def signup_validate_ok_iff Let_def split: if_splits)
qed simp

text \<open>
  C26: the padded-address rejection on the page. An address that
  matches \<open>emailRegex\<close>, typed with a leading no-break space or vertical tab (white
  space for \<open>trim\<close> and \<open>\s\<close> that the email input does not strip), is kept
  as typed, and submitting shows "Please enter a valid email address." without
  navigating, whatever the password.
\<close>

theorem signin_page_padded_email_rejected:
  assumes "email_regex_test email" and "js_space c" and "\<not> ascii_whitespace c"
  shows "signin_run p [SiTypeEmail (c # email), SiSubmit]
    = (p\<lparr>si_email := c # email, si_error := ''Please enter a valid email address.''\<rparr>, None)"
  using email_input_value_padded [OF assms(1,3)] signin_validate_padded [OF assms(1,2)]
  by simp

section \<open>Witnesses\<close>

theorem signin_padded_email_rejected_witness:
  "signin_validate (CHR 0xA0 # ''ann@uni.edu'') ''Secret1'' = Some EmailInvalid"
proof -
  have e: "email_regex_test ''ann@uni.edu''"
    by (simp add: email_regex_test_def email_class_def js_space_def)
  have s: "js_space (CHR 0xA0)" by (simp add: js_space_def)
  from signin_padded_email_rejected [OF e s, of "''Secret1''"] show ?thesis by simp
qed

theorem signin_navigates_only_valid_witness:
  "signin_run signin_page_init [SiTypeEmail ''ann@uni.edu'', SiTypePassword ''Secret1'', SiSubmit]
     = (\<lparr>si_email = ''ann@uni.edu'', si_password = ''Secret1'', si_error = []\<rparr>, Some ''/dashboard'')
   \<and> email_regex_test ''ann@uni.edu''"
proof -
  have r: "signin_run signin_page_init [SiTypeEmail ''ann@uni.edu'', SiTypePassword ''Secret1'', SiSubmit]
     = (\<lparr>si_email = ''ann@uni.edu'', si_password = ''Secret1'', si_error = []\<rparr>, Some ''/dashboard'')"
    by (simp add: signin_page_init_def signin_validate_def js_trim_def email_regex_test_def
        email_class_def js_space_def password_regex_test_def is_lower_def is_upper_def is_digit_def
        js_line_terminator_def
        email_input_value_def ascii_whitespace_def)
  from signin_navigates_only_valid [OF r] r show ?thesis by simp
qed

theorem signup_navigates_only_valid_witness:
  "snd (signup_run signup_page_init
     [SuTypeName ''Ann'', SuTypeEmail ''ann@uni.edu'', SuTypePassword ''Secret1'',
      SuTypeConfirm ''Secret1'', SuSubmit]) = Some ''/dashboard''
   \<and> su_confirm (fst (signup_run signup_page_init
     [SuTypeName ''Ann'', SuTypeEmail ''ann@uni.edu'', SuTypePassword ''Secret1'',
      SuTypeConfirm ''Secret1'', SuSubmit])) = ''Secret1''"
proof -
  obtain p' where r: "signup_run signup_page_init
     [SuTypeName ''Ann'', SuTypeEmail ''ann@uni.edu'', SuTypePassword ''Secret1'',
      SuTypeConfirm ''Secret1'', SuSubmit] = (p', Some ''/dashboard'')"
    and c: "su_confirm p' = ''Secret1''"
    by (simp add: signup_page_init_def signup_submit_def signup_ok_def signup_validate_def
        js_trim_def email_regex_test_def email_class_def js_space_def password_regex_test_def
        is_lower_def is_upper_def is_digit_def js_line_terminator_def
        email_input_value_def ascii_whitespace_def)
  from signup_navigates_only_valid [OF r] r c show ?thesis by simp
qed

theorem signin_page_padded_email_rejected_witness:
  "signin_run signin_page_init [SiTypeEmail (CHR 0xA0 # ''ann@uni.edu''), SiSubmit]
    = (\<lparr>si_email = CHR 0xA0 # ''ann@uni.edu'', si_password = [],
        si_error = ''Please enter a valid email address.''\<rparr>, None)"
proof -
  have e: "email_regex_test ''ann@uni.edu''"
    by (simp add: email_regex_test_def email_class_def js_space_def)
  have s: "js_space (CHR 0xA0)" and a: "\<not> ascii_whitespace (CHR 0xA0)"
    by (simp_all add: js_space_def ascii_whitespace_def)
  from signin_page_padded_email_rejected [OF e s a, of signin_page_init] show ?thesis
    by (simp add: signin_page_init_def)
qed

end
