(* ===== verification/Spec2Isabelle.thy ===== *)
theory Spec2Isabelle
  imports Deck_Page Express_App Form_Validation
begin

text \<open>
  A verification development for BrainFlip, a flashcard study application: a React
  client (\<open>src/frontend\<close>) and an Express server over MongoDB (\<open>src/backend/index.js\<close>).

  \<^bold>\<open>Parts of the program and how they interact.\<close> The deck page
  (\<open>src/frontend/src/pages/DeckPage.jsx\<close>) keeps the cards of one deck in an item
  store (the \<open>useItemManager\<close> hook), lets the user add, edit and delete cards, uploads a
  PDF to \<open>POST /api/cards/generate\<close> and merges the returned question/answer pairs into
  the deck, toggles a favourite flag and shares the deck. The server entry point
  (\<open>src/backend/index.js\<close>) installs a CORS middleware, the body parsers, the three
  routers and a middleware that connects to the database through a cached connection.
  The sign-in and sign-up pages (\<open>Signin.jsx\<close>, \<open>Signup.jsx\<close>) validate their forms.

  \<^bold>\<open>Theories.\<close>
  \<^item> \<open>Prelude\<close>: JavaScript's white space and line terminators (over code units below
    256), \<open>String.prototype.trim\<close> (\<open>js_trim\<close>), \<open>parseInt\<close> (\<open>js_parse_int\<close>, exact over the
    integers where JavaScript rounds to a double beyond 2^53; the page only compares the
    parsed count with 1 and 50), and association lists keyed by an identifier.
  \<^item> \<open>Item_Store\<close>: the item store of the deck page. \<open>useItemManager\<close> is not among
    the sources, so it is modelled from section 4.1 of the specification: an ordered list
    of \<open>(id, item)\<close> pairs and an identifier counter, with \<open>add_item\<close>,
    \<open>update_item\<close>, \<open>remove_item\<close> and the step function \<open>store_step\<close>. Its lemmas
    show the invariant (distinct identifiers below the counter), a refinement of the
    finite-map contract \<open>map_step\<close> through \<open>store_abs\<close>, the functional behaviour of
    each operation, and that identifiers are never reused over a run.
  \<^item> \<open>Deck_Page\<close>: \<open>DeckPage.jsx\<close>. \<open>editable_card_step\<close> is \<open>EditableCard\<close>,
    \<open>pdf_modal_step\<close> is \<open>PDFModal\<close>, \<open>share_modal_step\<close> is \<open>ShareModal\<close>, and
    \<open>deck_page_step\<close> is \<open>DeckPage\<close> with its handlers \<open>handle_add\<close>,
    \<open>handle_pdf_submit\<close>/\<open>handle_pdf_response\<close> (the two halves of
    \<open>handlePDFSubmit\<close> around its \<open>await\<close>), \<open>handle_share_submit\<close> and
    \<open>handle_toggle_favorite\<close>. Every event whose control is not on screen is
    \<open>None\<close>; server responses arrive as events in any order. The lemmas show the page
    invariant over every run from the initial page, the merge of generated cards, the
    error paths of generation, that sharing changes nothing, and that after any history
    Cancel in the card editor keeps the edited values, which the next Save sends.
    Card callbacks reach the page as events of their own, not composed with a run of
    \<open>EditableCard\<close>, which over-approximates what the page can receive.
  \<^item> \<open>Db_Connection\<close>: \<open>connectToDatabase\<close> of \<open>src/backend/index.js\<close> (lines
    73-116) under concurrent requests. The module-level \<open>cached\<close> object is the
    \<open>cache\<close> record; each request is a task suspended at one of its \<open>await\<close>s, and
    \<open>server_step\<close> takes one event (a request arrives, the \<open>mongoose.connect\<close> promise
    settles, a suspended request resumes, a \<open>dropIndex\<close> call finishes) in any
    interleaving. \<open>reachable\<close> is the inductive set of reachable server states, and
    \<open>conn_inv\<close> its invariant, proved by rule induction. The lemmas show that
    \<open>mongoose.connect\<close> is called at most once, that a request proceeds only once
    connected, that a rejected connection is never retried and every later request gets
    500, and that \<open>dropIndex\<close> runs once for sequential requests but once per request
    that waited on the promise when requests overlap.
  \<^item> \<open>Express_App\<close>: the layers of the Express application (lines 17-126) as a list
    and \<open>dispatch\<close> as Express runs them; the routers are a parameter, and the
    statuses the two body parsers answer with are fields of the request. The lemmas show
    that preflights are answered by CORS, and that the database middleware, registered
    after the routers, guards no route.
  \<^item> \<open>Form_Validation\<close>: the regular expressions of \<open>Signin.jsx\<close> and
    \<open>Signup.jsx\<close> as backtracking matchers (\<open>email_regex_test\<close>,
    \<open>password_regex_test\<close>), proved equal to declarative descriptions of their
    languages, the two validators and submit handlers with their acceptance conditions,
    and the two pages as step functions (\<open>signin_step\<close>, \<open>signup_step\<close>), with
    the sanitization the browser applies to a \<open>type="email"\<close> field
    (\<open>email_input_value\<close>). The lemmas show that a page reaches the dashboard only from
    a valid form, and that an address padded with a no-break space or vertical tab is
    rejected on the sign-in page.

  \<^bold>\<open>Modelling choices.\<close> React state updates are applied in the order the handlers
  make them; the browser's form validation is the guard of a submit event in the PDF
  modal; the browser's \<open>type="email"\<close> validity check in the share modal is a
  parameter, and the sign-in and sign-up forms are \<open>noValidate\<close>. Strings are lists of code units below 256.
  No fuel and no bound is needed: every function of the model is total (the function
  package proves each recursion terminating); the asynchronous server is
  a step relation whose runs are finite event lists, so nothing needs to run forever.

  \<^bold>\<open>Not modelled.\<close> Rendering (JSX markup, \<open>Footer.jsx\<close>, \<open>SitemarkIcon.js\<close>),
  the routers under \<open>routes/\<close> and the Mongoose models (not among the sources), the PDF
  text extraction and question generation (an external capability per the specification),
  navigation, and the \<open>listen\<close> call and logging of the server. The card and deck
  services and the ingestion pipeline of the specification live in the routers and are
  left for a later extension of the development, as is the browser's email validation
  used by the share modal (a parameter here).
\<close>

end
